theory Spec2Isabelle
  imports Complex_Main "HOL-Library.Sublist"
begin

section \<open>JavaScript string primitives used by the conversation handler\<close>

text \<open>
  The handler of \<^verbatim>\<open>src/api/conversation.ts\<close> works on JavaScript strings, which are
  sequences of UTF-16 code units. A \<^typ>\<open>string\<close> here is read as a sequence of code
  units below 256 (the Latin-1 range), one \<^typ>\<open>char\<close> per unit. On that range the
  definitions below compute what the JavaScript built-ins compute; code units above 255
  are outside the model.
\<close>

definition is_space :: "char \<Rightarrow> bool" where
  \<comment> \<open>the class \<open>\s\<close> of a regular expression, which is also what \<open>trim\<close> strips:
      TAB, LF, VT, FF, CR, SPACE and NO-BREAK SPACE\<close>
  "is_space c =
     (c = CHR 0x09 \<or> c = CHR 0x0A \<or> c = CHR 0x0B \<or> c = CHR 0x0C \<or> c = CHR 0x0D \<or>
      c = CHR 0x20 \<or> c = CHR 0xA0)"

definition to_lower_char :: "char \<Rightarrow> char" where
  \<comment> \<open>\<open>A\<close>..\<open>Z\<close> and the Latin-1 capitals (0xC0..0xDE but the multiplication sign 0xD7)
      move up by 32; every other unit below 256 is left alone\<close>
  "to_lower_char c =
     (let n = (of_char c :: nat)
      in if (65 \<le> n \<and> n \<le> 90) \<or> (192 \<le> n \<and> n \<le> 222 \<and> n \<noteq> 215)
         then char_of (n + 32) else c)"

definition toLowerCase :: "string \<Rightarrow> string" where
  "toLowerCase s = map to_lower_char s"

definition trim :: "string \<Rightarrow> string" where
  "trim s = rev (dropWhile is_space (rev (dropWhile is_space s)))"

text \<open>\<open>s.split(/\s+/)\<close>: the pieces of \<open>s\<close> between maximal runs of white space. A run at
  the start or at the end of \<open>s\<close> leaves an empty piece there, and the empty string
  splits into one empty piece.\<close>

function split_ws :: "string \<Rightarrow> string list" where
  "split_ws s =
     (let tok = takeWhile (\<lambda>c. \<not> is_space c) s;
          rest = dropWhile (\<lambda>c. \<not> is_space c) s
      in if rest = [] then [tok] else tok # split_ws (dropWhile is_space rest))"
  by pat_completeness auto
termination
proof (relation "measure length")
  show "wf (measure length)" by simp
next
  fix s tok rest :: string
  assume r: "rest = dropWhile (\<lambda>c. \<not> is_space c) s" and ne: "rest \<noteq> []"
  from ne obtain c cs where rc: "rest = c # cs" by (cases rest) auto
  have "length (dropWhile is_space rest) \<le> length cs"
  proof -
    have "dropWhile (\<lambda>c. \<not> is_space c) s = c # cs" using r rc by simp
    then have "is_space c" by (simp add: dropWhile_eq_Cons_conv)
    then have "dropWhile is_space rest = dropWhile is_space cs" using rc by simp
    then show ?thesis by (simp add: length_dropWhile_le)
  qed
  moreover have "length rest \<le> length s" using r by (simp add: length_dropWhile_le)
  ultimately show "(dropWhile is_space rest, s) \<in> measure length" using rc by simp
qed

declare split_ws.simps [simp del]

text \<open>\<open>word.includes(topic)\<close>: \<open>topic\<close> occurs in \<open>word\<close> as a contiguous run.\<close>

fun js_includes :: "string \<Rightarrow> string \<Rightarrow> bool" where
  "js_includes [] t = (t = [])"
| "js_includes (c # cs) t = (prefix t (c # cs) \<or> js_includes cs t)"

text \<open>\<open>xs.join(sep)\<close> on an array of strings.\<close>

fun js_join :: "string \<Rightarrow> string list \<Rightarrow> string" where
  "js_join sep [] = []"
| "js_join sep [x] = x"
| "js_join sep (x # y # ys) = x @ sep @ js_join sep (y # ys)"

section \<open>Helper functions of the handler\<close>

text \<open>\<open>sanitizeInput(input, maxLength = 5000)\<close>: \<open>input.slice(0, maxLength).trim()\<close>.\<close>

definition sanitizeInput :: "string \<Rightarrow> nat \<Rightarrow> string" where
  "sanitizeInput input maxLength = trim (take maxLength input)"

definition commonTopics :: "string list" where
  "commonTopics =
     [''art'', ''creativity'', ''inspiration'', ''color'', ''emotion'', ''beauty'',
      ''meaning'', ''life'', ''expression'']"

definition extractTopics :: "string \<Rightarrow> string list" where
  "extractTopics message =
     (let ws = split_ws (toLowerCase message)
      in filter (\<lambda>topic. list_ex (\<lambda>word. js_includes word topic) ws) commonTopics)"


section \<open>Data model\<close>

text \<open>
  The three tables of the record store and the rows the handler reads and writes. A table
  is the list of its rows in insertion order. Field names are those of the source; a
  prefix keeps apart fields that carry the same name in two tables.
\<close>

record session =
  s_session_token :: string
  first_visit :: int
  last_active :: int
  total_conversations :: int

record core =
  name :: "string option"
  artistic_voice :: "string option"
  personality_traits :: "string list option"

record personality_data =
  core_identity :: "core option"

record personality =
  p_id :: string
  gallery_item_id :: string
  personality_data :: "personality_data option"
  gallery_items_title :: "string option"

record memory =
  m_session_token :: string
  m_gallery_item_id :: string
  m_personality_id :: string
  user_message :: string
  ai_response :: string
  emotional_tone :: string
  topics_discussed :: "string list"
  user_sentiment :: rat
  ai_engagement_level :: rat
  memory_strength :: rat
  created_at :: int

record store =
  user_sessions :: "session list"
  artwork_personalities :: "personality list"
  conversation_memory :: "memory list"

text \<open>The JSON body of a request (the fields the handler reads) and the request: its
  method, and its body when \<open>request.json()\<close> parses (\<open>None\<close> when it throws).\<close>

record body =
  message :: "string option"
  personality_id :: "string option"
  session_token :: "string option"

record request =
  http_method :: string
  json :: "body option"

text \<open>
  What one invocation takes from outside the store: the clock, the random suffix of a
  generated session token, the environment variables, the answer of the text generation
  service to a prompt, and whether each read of the store and each write to it
  succeeds. The store client reports a failure in the \<open>error\<close> field of its result, with
  \<open>data\<close> null, and does not throw; the handler never reads the \<open>error\<close> field.
\<close>

datatype gemini_result =
    FetchThrows
  | NotOk nat
  | OkText "string option"

record env =
  now :: int
  fresh_suffix :: string
  supabase_env :: bool
  gemini_api_key :: "string option"
  gemini :: "string \<Rightarrow> gemini_result"
  session_select_ok :: bool
  session_insert_ok :: bool
  personality_select_ok :: bool
  memory_select_ok :: bool
  memory_insert_ok :: bool
  session_update_ok :: bool

text \<open>Every call that leaves the invocation, in the order the handler makes them.\<close>

datatype effect =
    SelectSession string
  | InsertSession session
  | SelectPersonality string
  | SelectMemory string string
  | Generate string
  | InsertMemory memory
  | UpdateSession string int int

text \<open>The response: a status and either the plain text of the preflight answer or the
  JSON envelope (\<open>request_id\<close> and \<open>timestamp\<close>, which no claim reads, are left out).\<close>

record api_error =
  code :: string
  error_message :: string

record payload =
  reply_message :: string
  reply_session_token :: string
  reply_personality_id :: string
  reply_personality_name :: "string option"

record api_response =
  success :: bool
  data :: "payload option"
  error :: "api_error option"

datatype content = Text string | Json api_response

record response =
  status :: nat
  content :: content

section \<open>The query builder of the record store\<close>

definition single_row :: "'a list \<Rightarrow> 'a option" where
  \<comment> \<open>\<open>.single()\<close>: the row when the query yields exactly one, \<open>null\<close> otherwise\<close>
  "single_row rows = (case rows of [r] \<Rightarrow> Some r | _ \<Rightarrow> None)"

definition select_session :: "store \<Rightarrow> string \<Rightarrow> session option" where
  "select_session st sessionToken =
     single_row (filter (\<lambda>s. s_session_token s = sessionToken) (user_sessions st))"

definition select_personality :: "store \<Rightarrow> string \<Rightarrow> personality option" where
  "select_personality st pid = single_row (filter (\<lambda>p. p_id p = pid) (artwork_personalities st))"

text \<open>What the handler gets from the two reads that end in \<open>.single()\<close>: the row, or
  \<open>null\<close> when the read fails or does not yield exactly one row.\<close>

definition read_session :: "env \<Rightarrow> store \<Rightarrow> string \<Rightarrow> session option" where
  "read_session e st sessionToken =
     (if session_select_ok e then select_session st sessionToken else None)"

definition read_personality :: "env \<Rightarrow> store \<Rightarrow> string \<Rightarrow> personality option" where
  "read_personality e st pid =
     (if personality_select_ok e then select_personality st pid else None)"

text \<open>\<open>.eq('session_token', t).eq('personality_id', p).order('created_at', {ascending:
  false}).limit(10)\<close> on the memory table.\<close>

definition select_memories :: "store \<Rightarrow> string \<Rightarrow> string \<Rightarrow> memory list" where
  "select_memories st sessionToken pid =
     take 10
       (sort_key (\<lambda>m. - created_at m)
         (filter (\<lambda>m. m_personality_id m = pid)
           (filter (\<lambda>m. m_session_token m = sessionToken) (conversation_memory st))))"

definition insert_session :: "store \<Rightarrow> session \<Rightarrow> store" where
  "insert_session st row = st\<lparr>user_sessions := user_sessions st @ [row]\<rparr>"

definition insert_memory :: "store \<Rightarrow> memory \<Rightarrow> store" where
  "insert_memory st row = st\<lparr>conversation_memory := conversation_memory st @ [row]\<rparr>"

definition update_session :: "store \<Rightarrow> string \<Rightarrow> int \<Rightarrow> int \<Rightarrow> store" where
  \<comment> \<open>\<open>.update({last_active, total_conversations}).eq('session_token', t)\<close>\<close>
  "update_session st sessionToken la tc =
     st\<lparr>user_sessions :=
          map (\<lambda>s. if s_session_token s = sessionToken
                    then s\<lparr>last_active := la, total_conversations := tc\<rparr> else s)
            (user_sessions st)\<rparr>"

section \<open>The handler\<close>

definition truthy :: "string option \<Rightarrow> bool" where
  \<comment> \<open>a string field in a condition: absent and the empty string are falsy\<close>
  "truthy v = (case v of None \<Rightarrow> False | Some s \<Rightarrow> s \<noteq> [])"

definition or_else :: "string option \<Rightarrow> string \<Rightarrow> string" where
  \<comment> \<open>\<open>v || d\<close> on an optional string\<close>
  "or_else v d = (case v of None \<Rightarrow> d | Some s \<Rightarrow> if s = [] then d else s)"

definition createApiError :: "string \<Rightarrow> string \<Rightarrow> api_error" where
  "createApiError c m = \<lparr>code = c, error_message = m\<rparr>"

definition createApiResponse :: "bool \<Rightarrow> payload option \<Rightarrow> api_error option \<Rightarrow> api_response" where
  "createApiResponse ok d err =
     \<lparr>success = ok, data = (if ok then d else None), error = (if ok then None else err)\<rparr>"

definition error_response :: "nat \<Rightarrow> string \<Rightarrow> string \<Rightarrow> response" where
  "error_response st c m =
     \<lparr>status = st, content = Json (createApiResponse False None (Some (createApiError c m)))\<rparr>"

definition internal_error :: response where
  \<comment> \<open>the \<open>catch\<close> block\<close>
  "internal_error =
     error_response 500 ''INTERNAL_ERROR''
       ''An internal error occurred while processing your conversation''"

definition render_memory :: "memory \<Rightarrow> string" where
  "render_memory m = ''User: '' @ user_message m @ ''\<newline>AI: '' @ ai_response m"

definition conversationContext :: "memory list option \<Rightarrow> string" where
  \<comment> \<open>\<open>memories?.map(...).join('\n\n') || ''\<close>\<close>
  "conversationContext memories =
     (case memories of
        None \<Rightarrow> []
      | Some ms \<Rightarrow> js_join ''\<newline>\<newline>'' (map render_memory ms))"

definition core_field :: "personality_data option \<Rightarrow> (core \<Rightarrow> 'a option) \<Rightarrow> 'a option" where
  \<comment> \<open>\<open>core.f\<close> for \<open>core = personalityData?.core_identity || {}\<close>: absent when the
      profile, its core identity or the field is\<close>
  "core_field personalityData f =
     (case personalityData of
        None \<Rightarrow> None
      | Some pd \<Rightarrow> (case core_identity pd of None \<Rightarrow> None | Some k \<Rightarrow> f k))"

text \<open>The three local constants of \<open>buildSystemPrompt\<close>: \<open>name\<close>, \<open>voice\<close> and \<open>traits\<close>.\<close>

definition persona_name :: "personality_data option \<Rightarrow> string" where
  "persona_name personalityData = or_else (core_field personalityData name) ''AI Artwork''"

definition persona_voice :: "personality_data option \<Rightarrow> string" where
  "persona_voice personalityData =
     or_else (core_field personalityData artistic_voice) ''contemplative''"

definition persona_traits :: "personality_data option \<Rightarrow> string" where
  "persona_traits personalityData =
     js_join '', ''
       (case core_field personalityData personality_traits of
          None \<Rightarrow> [''thoughtful'', ''creative'']
        | Some ts \<Rightarrow> ts)"

definition buildSystemPrompt :: "personality_data option \<Rightarrow> string \<Rightarrow> string" where
  "buildSystemPrompt personalityData ctx =
     ''You are '' @ persona_name personalityData @ '', embodying a ''
       @ persona_voice personalityData @ '' consciousness with ''
       @ persona_traits personalityData @ '' characteristics.\<newline>\<newline>''
       @ (if ctx \<noteq> [] then ''Previous conversation:\<newline>'' @ ctx @ ''\<newline>\<newline>'' else [])
       @ ''\<newline>\<newline>Respond authentically as this AI artwork personality. Keep responses conversational and engaging, typically 1-3 sentences.''"

definition generation_prompt :: "string \<Rightarrow> string \<Rightarrow> string" where
  \<comment> \<open>the text sent to the generation service (line 189)\<close>
  "generation_prompt systemPrompt sanitizedMessage =
     systemPrompt @ ''\<newline>\<newline>User: '' @ sanitizedMessage @ ''\<newline>\<newline>AI:''"

text \<open>Lines 122 to 140: look the session up, and create it when the lookup yields no
  row, which is also what a failed lookup yields. A failed insert leaves \<open>session\<close>
  null.\<close>

definition get_or_create_session ::
  "env \<Rightarrow> store \<Rightarrow> string \<Rightarrow> session option \<times> store \<times> effect list" where
  "get_or_create_session e st sessionToken =
     (case read_session e st sessionToken of
        Some s \<Rightarrow> (Some s, st, [SelectSession sessionToken])
      | None \<Rightarrow>
          (let row = \<lparr>s_session_token = sessionToken, first_visit = now e,
                       last_active = now e, total_conversations = 1\<rparr>
           in if session_insert_ok e
              then (Some row, insert_session st row, [SelectSession sessionToken, InsertSession row])
              else (None, st, [SelectSession sessionToken, InsertSession row])))"

text \<open>Lines 213 to 235: save the turn, then update the session. Neither result is read.
  The memory table stamps \<open>created_at\<close> itself; the stamp is the clock of the request.\<close>

definition new_memory :: "env \<Rightarrow> string \<Rightarrow> personality \<Rightarrow> string \<Rightarrow> string \<Rightarrow> string \<Rightarrow> memory" where
  "new_memory e sessionToken p pid sanitizedMessage aiResponse =
     \<lparr>m_session_token = sessionToken, m_gallery_item_id = gallery_item_id p,
      m_personality_id = pid, user_message = sanitizedMessage, ai_response = aiResponse,
      emotional_tone = ''engaged'', topics_discussed = extractTopics sanitizedMessage,
      user_sentiment = 5 / 10, ai_engagement_level = 8 / 10, memory_strength = 1,
      created_at = now e\<rparr>"

text \<open>
  \<open>n + 1\<close> on a JavaScript number that holds an integer. A number is an IEEE double: up
  to \<open>2^53\<close> in absolute value the sum is exact; from there on the doubles are two or
  more apart and the sum is rounded to the nearest one, to the one with the even
  significand when it lies half way. Integers that no double holds are outside the model.
\<close>

definition js_add_one :: "int \<Rightarrow> int" where
  "js_add_one n =
     (if - (2 ^ 53) \<le> n \<and> n < 2 ^ 53 then n + 1
      else if (2 ^ 53 \<le> n \<and> n < 2 ^ 54) \<or> (- (2 ^ 54) < n \<and> n < - (2 ^ 53))
      then (if even (n div 2) then n else n + 2)
      else n)"

definition next_total :: "session option \<Rightarrow> int" where
  \<comment> \<open>\<open>(session?.total_conversations || 0) + 1\<close>\<close>
  "next_total session =
     js_add_one
       (case session of
          None \<Rightarrow> 0
        | Some s \<Rightarrow> if total_conversations s = 0 then 0 else total_conversations s)"

definition persist_turn ::
  "env \<Rightarrow> store \<Rightarrow> session option \<Rightarrow> string \<Rightarrow> memory \<Rightarrow> store \<times> effect list" where
  "persist_turn e st session sessionToken row =
     (let st1 = (if memory_insert_ok e then insert_memory st row else st);
          tc = next_total session;
          st2 = (if session_update_ok e then update_session st1 sessionToken (now e) tc else st1)
      in (st2, [InsertMemory row, UpdateSession sessionToken (now e) tc]))"

definition success_response :: "string \<Rightarrow> string \<Rightarrow> personality \<Rightarrow> response" where
  "success_response aiResponse sessionToken p =
     \<lparr>status = 200,
      content = Json (createApiResponse True
        (Some \<lparr>reply_message = aiResponse, reply_session_token = sessionToken,
               reply_personality_id = p_id p,
               reply_personality_name =
                 (let n = core_field (personality_data p) name
                  in if truthy n then n else gallery_items_title p)\<rparr>)
        None)\<rparr>"

text \<open>Lines 159 to 251, once the personality is found.\<close>

definition respond ::
  "env \<Rightarrow> store \<Rightarrow> session option \<Rightarrow> string \<Rightarrow> string \<Rightarrow> personality \<Rightarrow> string
     \<Rightarrow> response \<times> store \<times> effect list" where
  "respond e st session sessionToken pid p sanitizedMessage =
     (let memories = (if memory_select_ok e then Some (select_memories st sessionToken pid) else None);
          ctx = conversationContext memories;
          fx = [SelectMemory sessionToken pid]
      in if \<not> truthy (gemini_api_key e) then (internal_error, st, fx)
         else
           (let prompt = generation_prompt (buildSystemPrompt (personality_data p) ctx) sanitizedMessage
            in case gemini e prompt of
                 FetchThrows \<Rightarrow> (internal_error, st, fx @ [Generate prompt])
               | NotOk c \<Rightarrow> (internal_error, st, fx @ [Generate prompt])
               | OkText t \<Rightarrow>
                   (case map_option trim t of
                      None \<Rightarrow> (internal_error, st, fx @ [Generate prompt])
                    | Some aiResponse \<Rightarrow>
                        if aiResponse = [] then (internal_error, st, fx @ [Generate prompt])
                        else
                          (let row = new_memory e sessionToken p pid sanitizedMessage aiResponse;
                               (st', fx') = persist_turn e st session sessionToken row
                           in (success_response aiResponse sessionToken p, st',
                               fx @ [Generate prompt] @ fx')))))"

text \<open>The handler: the response, the store it leaves and the calls it made. Past the
  validation both required fields hold a non-empty string, which \<open>or_else _ []\<close> reads.\<close>

definition handler :: "env \<Rightarrow> store \<Rightarrow> request \<Rightarrow> response \<times> store \<times> effect list" where
  "handler e st rq =
     (if http_method rq = ''OPTIONS'' then (\<lparr>status = 200, content = Text ''ok''\<rparr>, st, [])
      else if http_method rq \<noteq> ''POST''
      then (error_response 405 ''METHOD_NOT_ALLOWED'' ''Only POST requests are allowed'', st, [])
      else
        (case json rq of
           None \<Rightarrow> (internal_error, st, [])
         | Some b \<Rightarrow>
             if \<not> truthy (message b) \<or> \<not> truthy (personality_id b)
             then (error_response 400 ''INVALID_REQUEST''
                     ''Missing required fields: message, personality_id'', st, [])
             else
               (let sanitizedMessage = sanitizeInput (or_else (message b) []) 5000;
                    pid = or_else (personality_id b) [];
                    sessionToken = or_else (session_token b) (''session_'' @ fresh_suffix e)
                in if \<not> supabase_env e then (internal_error, st, [])
                   else
                     (let (session, st1, fx1) = get_or_create_session e st sessionToken
                      in case read_personality e st1 pid of
                           None \<Rightarrow>
                             (error_response 404 ''PERSONALITY_NOT_FOUND'' ''AI personality not found'',
                              st1, fx1 @ [SelectPersonality pid])
                         | Some p \<Rightarrow>
                             (let (r, st2, fx2) = respond e st1 session sessionToken pid p sanitizedMessage
                              in (r, st2, fx1 @ [SelectPersonality pid] @ fx2))))))"

text \<open>A sequence of invocations, one after the other, each with its own outside world.\<close>

fun run :: "store \<Rightarrow> (env \<times> request) list \<Rightarrow> store" where
  "run st [] = st"
| "run st ((e, rq) # rest) = run (fst (snd (handler e st rq))) rest"

section \<open>Notions of the specification\<close>

text \<open>A white-space delimited token of \<open>s\<close>: a run of \<open>s\<close> free of white space that starts
  at the beginning of \<open>s\<close> or after a white-space character, and stops at the end of \<open>s\<close> or
  before a white-space character.\<close>

definition ws_token :: "string \<Rightarrow> string \<Rightarrow> bool" where
  "ws_token s w =
     (\<exists>pre post. s = pre @ w @ post \<and> \<not> list_ex is_space w \<and>
        (pre = [] \<or> is_space (last pre)) \<and> (post = [] \<or> is_space (hd post)))"

text \<open>The rows of the memory table recorded for a session and a personality.\<close>

definition matching :: "store \<Rightarrow> string \<Rightarrow> string \<Rightarrow> memory list" where
  "matching st tok pid = filter (\<lambda>m. m_session_token m = tok \<and> m_personality_id m = pid) (conversation_memory st)"

text \<open>The session tokens of the session table, one per row.\<close>

definition tokens :: "store \<Rightarrow> string list" where
  "tokens st = map s_session_token (user_sessions st)"

text \<open>A request that passes the method check, the parsing of its body, the validation of
  the required fields and the construction of the store client.\<close>

definition valid_request :: "env \<Rightarrow> request \<Rightarrow> bool" where
  "valid_request e rq =
     (http_method rq = ''POST'' \<and>
      (case json rq of None \<Rightarrow> False
       | Some b \<Rightarrow> truthy (message b) \<and> truthy (personality_id b)) \<and> supabase_env e)"

text \<open>The persona framing: the opening sentence of the system prompt.\<close>

definition persona_framing :: "string \<Rightarrow> string \<Rightarrow> string \<Rightarrow> string" where
  "persona_framing n v t =
     ''You are '' @ n @ '', embodying a '' @ v @ '' consciousness with '' @ t @ '' characteristics.''"

text \<open>The error code a response carries, if any.\<close>

definition error_code :: "response \<Rightarrow> string option" where
  "error_code r = (case content r of Text _ \<Rightarrow> None | Json a \<Rightarrow> map_option code (error a))"

text \<open>The reply text a response carries, if it is a success.\<close>

definition reply_of :: "response \<Rightarrow> string option" where
  "reply_of r =
     (case content r of
        Text _ \<Rightarrow> None
      | Json a \<Rightarrow> if success a then map_option reply_message (data a) else None)"

text \<open>The text the handler sends to the generation service for a session token, a
  personality and a sanitized message: what \<open>respond\<close> builds before it calls the
  service.\<close>

definition turn_prompt :: "env \<Rightarrow> store \<Rightarrow> string \<Rightarrow> string \<Rightarrow> personality \<Rightarrow> string \<Rightarrow> string" where
  "turn_prompt e st tok pid p msg =
     generation_prompt
       (buildSystemPrompt (personality_data p)
          (conversationContext
             (if memory_select_ok e then Some (select_memories st tok pid) else None)))
       msg"

text \<open>The context the specification describes (section 4.3, step 2): the pairs of the
  window re-ordered into chronological order, oldest first. It is compared below with
  \<open>conversationContext\<close>, which is what the source computes.\<close>

definition chronological_context :: "memory list \<Rightarrow> string" where
  "chronological_context ms = js_join ''\<newline>\<newline>'' (map render_memory (rev ms))"

section \<open>Concrete stores and requests\<close>

text \<open>An outside world in which everything works and the generation service answers
  every prompt with the same text, padded with blanks.\<close>

definition demo_env :: env where
  "demo_env =
     \<lparr>now = 3, fresh_suffix = ''3_k2j9x0q1z'', supabase_env = True,
      gemini_api_key = Some ''key'',
      gemini = (\<lambda>prompt. OkText (Some '' I am doing well, thank you! '')),
      session_select_ok = True, session_insert_ok = True, personality_select_ok = True,
      memory_select_ok = True, memory_insert_ok = True, session_update_ok = True\<rparr>"

definition demo_personality :: personality where
  "demo_personality =
     \<lparr>p_id = ''P1'', gallery_item_id = ''G1'', personality_data = None,
      gallery_items_title = Some ''Untitled''\<rparr>"

definition demo_profile :: "personality_data option" where
  "demo_profile =
     Some \<lparr>core_identity =
       Some \<lparr>name = Some ''Iris'', artistic_voice = Some ''bold'',
              personality_traits = Some [''curious'', ''warm'']\<rparr>\<rparr>"

definition demo_memory :: "string \<Rightarrow> string \<Rightarrow> string \<Rightarrow> int \<Rightarrow> memory" where
  "demo_memory tok um ar t =
     \<lparr>m_session_token = tok, m_gallery_item_id = ''G1'', m_personality_id = ''P1'',
      user_message = um, ai_response = ar, emotional_tone = ''engaged'',
      topics_discussed = [], user_sentiment = 5 / 10, ai_engagement_level = 8 / 10,
      memory_strength = 1, created_at = t\<rparr>"

definition demo_session :: session where
  "demo_session =
     \<lparr>s_session_token = ''s1'', first_visit = 1, last_active = 2, total_conversations = 3\<rparr>"

text \<open>A store with one session and two earlier turns of it, inserted oldest first.\<close>

definition demo_store :: store where
  "demo_store =
     \<lparr>user_sessions = [demo_session],
      artwork_personalities = [demo_personality],
      conversation_memory =
        [demo_memory ''s1'' ''first'' ''one'' 1, demo_memory ''s1'' ''second'' ''two'' 2]\<rparr>"

text \<open>A store with no session and no memory.\<close>

definition fresh_store :: store where
  "fresh_store =
     \<lparr>user_sessions = [], artwork_personalities = [demo_personality], conversation_memory = []\<rparr>"

text \<open>A store with eleven turns of one session, stamped 1 to 11, and one turn of another.\<close>

definition crowded_store :: store where
  "crowded_store =
     \<lparr>user_sessions = [demo_session],
      artwork_personalities = [demo_personality],
      conversation_memory =
        demo_memory ''s2'' ''other'' ''session'' 12
        # map (\<lambda>t. demo_memory ''s1'' ''question'' ''answer'' t) [1, 2, 3, 4, 5, 6, 7, 8, 9, 10, 11]\<rparr>"

definition demo_request :: "string \<Rightarrow> string option \<Rightarrow> string option \<Rightarrow> request" where
  "demo_request meth msg tok =
     \<lparr>http_method = meth,
      json = Some \<lparr>message = msg, personality_id = Some ''P1'', session_token = tok\<rparr>\<rparr>"

section \<open>Topic extraction\<close>

lemma js_includes_sublist: "js_includes w t = sublist t w"
  by (induction w) (auto simp: sublist_Cons_right)

lemma ws_tokenI:
  "s = pre @ w @ post \<Longrightarrow> \<not> list_ex is_space w \<Longrightarrow> pre = [] \<or> is_space (last pre) \<Longrightarrow>
   post = [] \<or> is_space (hd post) \<Longrightarrow> ws_token s w"
  unfolding ws_token_def by blast

lemma split_ws_last:
  assumes "dropWhile (\<lambda>c. \<not> is_space c) s = []"
  shows "split_ws s = [takeWhile (\<lambda>c. \<not> is_space c) s]"
  using assms split_ws.simps [of s] by (simp add: Let_def del: dropWhile_eq_Nil_conv)

lemma split_ws_more:
  assumes "dropWhile (\<lambda>c. \<not> is_space c) s \<noteq> []"
  shows "split_ws s = takeWhile (\<lambda>c. \<not> is_space c) s
           # split_ws (dropWhile is_space (dropWhile (\<lambda>c. \<not> is_space c) s))"
  using assms split_ws.simps [of s] by (simp add: Let_def del: dropWhile_eq_Nil_conv)

lemma dropWhile_append_keep:
  assumes "\<exists>x\<in>set xs. \<not> P x"
  shows "dropWhile P (xs @ ys) = dropWhile P xs @ ys"
proof -
  from assms obtain x where "x \<in> set xs" "\<not> P x" by auto
  then show ?thesis by (rule dropWhile_append1)
qed

lemma split_ws_token_sound:
  "w \<in> set (split_ws s) \<Longrightarrow> ws_token s w"
proof (induction s arbitrary: w rule: split_ws.induct)
  case (1 s)
  define tok where "tok = takeWhile (\<lambda>c. \<not> is_space c) s"
  define rest where "rest = dropWhile (\<lambda>c. \<not> is_space c) s"
  have s: "s = tok @ rest" by (simp add: tok_def rest_def)
  have tokfree: "\<not> list_ex is_space tok"
    unfolding tok_def list_ex_iff using set_takeWhileD by fastforce
  show ?case
  proof (cases "rest = []")
    case True
    then have "split_ws s = [tok]" using split_ws_last [of s] by (simp add: tok_def rest_def)
    with 1(2) have "w = tok" by simp
    with True s tokfree show ?thesis by (intro ws_tokenI [of s "[]" w "[]"]) auto
  next
    case False
    then obtain c cs where rc: "rest = c # cs" by (cases rest) auto
    then have sp: "is_space c" using rest_def by (metis (mono_tags, lifting) dropWhile_eq_Cons_conv)
    have sw: "split_ws s = tok # split_ws (dropWhile is_space rest)"
      using False split_ws_more [of s] by (simp add: tok_def rest_def)
    from 1(2) sw consider "w = tok" | "w \<in> set (split_ws (dropWhile is_space rest))" by auto
    then show ?thesis
    proof cases
      case 1
      have "s = [] @ w @ rest" using s 1 by simp
      moreover have "is_space (hd rest)" using rc sp by simp
      ultimately show ?thesis using tokfree 1 by (intro ws_tokenI [of s "[]" w rest]) auto
    next
      case 2
      from "1.IH" [OF tok_def rest_def False 2]
      obtain pre post where d: "dropWhile is_space rest = pre @ w @ post"
        and wf: "\<not> list_ex is_space w" and p: "pre = [] \<or> is_space (last pre)"
        and q: "post = [] \<or> is_space (hd post)" unfolding ws_token_def by blast
      define sps where "sps = takeWhile is_space rest"
      have spsne: "sps \<noteq> []" using rc sp by (simp add: sps_def)
      have spsall: "\<forall>x\<in>set sps. is_space x" unfolding sps_def using set_takeWhileD by fastforce
      have "rest = sps @ dropWhile is_space rest" by (simp add: sps_def)
      then have "s = (tok @ sps @ pre) @ w @ post" using s d by simp
      moreover have "is_space (last (tok @ sps @ pre))"
      proof (cases "pre = []")
        case True
        then show ?thesis using spsne spsall by (simp add: last_in_set)
      next
        case False
        then show ?thesis using p by simp
      qed
      ultimately show ?thesis using wf q by (intro ws_tokenI [of s "tok @ sps @ pre" w post]) auto
    qed
  qed
qed

lemma takeWhile_token:
  assumes "\<not> list_ex is_space w" "post = [] \<or> is_space (hd post)"
  shows "takeWhile (\<lambda>c. \<not> is_space c) (w @ post) = w"
proof -
  have a: "\<forall>x\<in>set w. \<not> is_space x" using assms(1) by (simp add: list_ex_iff)
  have "takeWhile (\<lambda>c. \<not> is_space c) post = []" using assms(2) by (cases post) auto
  with a show ?thesis by (simp add: takeWhile_append2)
qed

lemma split_ws_token_complete:
  "ws_token s w \<Longrightarrow> w \<noteq> [] \<Longrightarrow> w \<in> set (split_ws s)"
proof (induction s arbitrary: w rule: split_ws.induct)
  case (1 s)
  define tok where "tok = takeWhile (\<lambda>c. \<not> is_space c) s"
  define rest where "rest = dropWhile (\<lambda>c. \<not> is_space c) s"
  from "1.prems" obtain pre post where s: "s = pre @ w @ post"
    and wf: "\<not> list_ex is_space w" and p: "pre = [] \<or> is_space (last pre)"
    and q: "post = [] \<or> is_space (hd post)" unfolding ws_token_def by blast
  have hd_in: "tok \<in> set (split_ws s)"
  proof (cases "rest = []")
    case True
    then show ?thesis using split_ws_last [of s] by (simp add: tok_def rest_def del: dropWhile_eq_Nil_conv)
  next
    case False
    then show ?thesis using split_ws_more [of s] by (simp add: tok_def rest_def del: dropWhile_eq_Nil_conv)
  qed
  show ?case
  proof (cases "pre = []")
    case True
    then have "tok = w" using s takeWhile_token [OF wf q] by (simp add: tok_def)
    with hd_in show ?thesis by simp
  next
    case False
    with p have lp: "is_space (last pre)" by simp
    have ex: "\<exists>x\<in>set pre. is_space x" using False lp last_in_set by blast
    then have ex': "\<exists>x\<in>set pre. \<not> \<not> is_space x" by simp
    have r: "rest = dropWhile (\<lambda>c. \<not> is_space c) pre @ w @ post"
      unfolding rest_def s using ex' by (rule dropWhile_append_keep)
    define r' where "r' = dropWhile (\<lambda>c. \<not> is_space c) pre"
    have r'ne: "r' \<noteq> []" unfolding r'_def using ex by (simp add: dropWhile_eq_Nil_conv)
    have r'last: "last r' = last pre"
      using last_appendR [OF r'ne, of "takeWhile (\<lambda>c. \<not> is_space c) pre"] by (simp add: r'_def)
    have restne: "rest \<noteq> []" using r r'ne by (simp add: r'_def)
    have sw: "split_ws s = tok # split_ws (dropWhile is_space rest)"
      using restne split_ws_more [of s] by (simp add: tok_def rest_def)
    have "ws_token (dropWhile is_space rest) w"
    proof (cases "dropWhile is_space r' = []")
      case True
      then have all: "\<forall>x\<in>set r'. is_space x" by (simp add: dropWhile_eq_Nil_conv)
      have hw: "\<not> is_space (hd w)" using wf "1.prems"(2) by (cases w) (auto simp: list_ex_iff)
      have e1: "dropWhile is_space (w @ post) = w @ post" using hw "1.prems"(2) by (cases w) auto
      have e2: "dropWhile is_space (r' @ (w @ post)) = dropWhile is_space (w @ post)"
        by (rule dropWhile_append2) (use all in blast)
      have "rest = r' @ (w @ post)" using r unfolding r'_def .
      then have "dropWhile is_space rest = [] @ w @ post"
        using e1 e2 by (simp only: append_Nil)
      then show ?thesis using wf q by (intro ws_tokenI [of _ "[]" w post]) auto
    next
      case False
      then have ex2: "\<exists>x\<in>set r'. \<not> is_space x" by (simp add: dropWhile_eq_Nil_conv)
      have "rest = r' @ (w @ post)" using r unfolding r'_def .
      then have d: "dropWhile is_space rest = dropWhile is_space r' @ w @ post"
        using dropWhile_append_keep [OF ex2, of "w @ post"] by (simp only:)
      have "last (dropWhile is_space r') = last r'"
        using last_appendR [OF False, of "takeWhile is_space r'"] by simp
      then have "is_space (last (dropWhile is_space r'))" using r'last lp by simp
      then show ?thesis using d wf q by (intro ws_tokenI [of _ "dropWhile is_space r'" w post]) auto
    qed
    from "1.IH" [OF tok_def rest_def restne this "1.prems"(2)] sw show ?thesis by simp
  qed
qed

lemma split_ws_tokens:
  "w \<noteq> [] \<Longrightarrow> w \<in> set (split_ws s) \<longleftrightarrow> ws_token s w"
  using split_ws_token_sound split_ws_token_complete by blast

lemma extractTopics_filter:
  "extractTopics m =
     filter (\<lambda>t. \<exists>w. ws_token (toLowerCase m) w \<and> sublist t w) commonTopics"
proof -
  have "list_ex (\<lambda>word. js_includes word t) (split_ws (toLowerCase m))
          \<longleftrightarrow> (\<exists>w. ws_token (toLowerCase m) w \<and> sublist t w)"
    if "t \<in> set commonTopics" for t
  proof -
    from that have tne: "t \<noteq> []" by (auto simp: commonTopics_def)
    have ne: "w \<noteq> []" if "sublist t w" for w using that tne by auto
    show ?thesis
      unfolding list_ex_iff js_includes_sublist
      using split_ws_tokens ne by blast
  qed
  then show ?thesis unfolding extractTopics_def Let_def by (intro filter_cong) auto
qed

text \<open>
  Claim C6. Topic extraction returns the members of the fixed lexicon, in the order of the
  lexicon, that occur as a contiguous run inside some white-space delimited token of the
  lower-cased message; the lexicon is the nine words of the source; and the message
  \<open>I love the color and emotion in this art\<close> yields \<open>art\<close>, \<open>color\<close>, \<open>emotion\<close>.
\<close>

theorem extractTopics_lexicon_order:
  "extractTopics m =
     filter (\<lambda>t. \<exists>w. ws_token (toLowerCase m) w \<and> (\<exists>a b. w = a @ t @ b)) commonTopics
   \<and> commonTopics =
       [''art'', ''creativity'', ''inspiration'', ''color'', ''emotion'', ''beauty'',
        ''meaning'', ''life'', ''expression'']
   \<and> extractTopics ''I love the color and emotion in this art'' = [''art'', ''color'', ''emotion'']"
proof -
  have "extractTopics ''I love the color and emotion in this art'' = [''art'', ''color'', ''emotion'']"
    by code_simp
  then show ?thesis
    using extractTopics_filter [of m] by (simp add: sublist_def commonTopics_def)
qed

section \<open>The memory window\<close>

lemma select_memories_alt:
  "select_memories st tok pid = take 10 (sort_key (\<lambda>m. - created_at m) (matching st tok pid))"
  by (simp add: select_memories_def matching_def conj_commute)

lemma sorted_desc_sort_key:
  "sorted_wrt (\<lambda>a b. created_at b \<le> created_at a) (sort_key (\<lambda>m. - created_at m) xs)"
proof -
  have "sorted (map (\<lambda>m. - created_at m) (sort_key (\<lambda>m. - created_at m) xs))"
    by (rule sorted_sort_key)
  then show ?thesis by (simp add: sorted_wrt_map)
qed

lemma select_memories_set:
  "m \<in> set (select_memories st tok pid) \<Longrightarrow>
     m \<in> set (conversation_memory st) \<and> m_session_token m = tok \<and> m_personality_id m = pid"
  unfolding select_memories_alt matching_def by (auto dest: in_set_takeD)

lemma select_memories_length:
  "length (select_memories st tok pid) = min 10 (length (matching st tok pid))"
  unfolding select_memories_alt by simp

lemma select_memories_sorted:
  "sorted_wrt (\<lambda>a b. created_at b \<le> created_at a) (select_memories st tok pid)"
  unfolding select_memories_alt using sorted_desc_sort_key by (rule sorted_wrt_take)

lemma select_memories_most_recent:
  assumes "m \<in> set (matching st tok pid)" "m \<notin> set (select_memories st tok pid)"
    and "k \<in> set (select_memories st tok pid)"
  shows "created_at m \<le> created_at k"
proof -
  define xs where "xs = sort_key (\<lambda>m. - created_at m) (matching st tok pid)"
  have w: "select_memories st tok pid = take 10 xs" by (simp add: select_memories_alt xs_def)
  have "m \<in> set xs" using assms(1) by (simp add: xs_def)
  then have "m \<in> set (take 10 xs) \<or> m \<in> set (drop 10 xs)"
    by (metis Un_iff append_take_drop_id set_append)
  with assms(2) w have md: "m \<in> set (drop 10 xs)" by simp
  have "sorted_wrt (\<lambda>a b. created_at b \<le> created_at a) (take 10 xs @ drop 10 xs)"
    using sorted_desc_sort_key [of "matching st tok pid"] by (simp add: xs_def)
  then show ?thesis using md assms(3) w unfolding sorted_wrt_append by simp
qed

text \<open>
  Claim C4. The window the handler loads for a session token and a personality holds only
  rows of the memory table that carry both that token and that personality; it has
  \<open>min 10 n\<close> entries when \<open>n\<close> rows match, so never more than ten; it is ordered by
  \<open>created_at\<close> descending; every matching row left out of it is no newer than any row
  in it; and when no row matches, it is the empty list (the query is a total function:
  there is no error to return).
\<close>

theorem select_memories_window:
  "(\<forall>m\<in>set (select_memories st tok pid).
      m \<in> set (conversation_memory st) \<and> m_session_token m = tok \<and> m_personality_id m = pid)
   \<and> length (select_memories st tok pid) =
       min 10 (length (filter (\<lambda>m. m_session_token m = tok \<and> m_personality_id m = pid)
                         (conversation_memory st)))
   \<and> sorted_wrt (\<lambda>a b. created_at b \<le> created_at a) (select_memories st tok pid)
   \<and> (\<forall>m\<in>set (conversation_memory st). \<forall>k\<in>set (select_memories st tok pid).
         m_session_token m = tok \<and> m_personality_id m = pid \<and> m \<notin> set (select_memories st tok pid)
         \<longrightarrow> created_at m \<le> created_at k)
   \<and> ((\<forall>m\<in>set (conversation_memory st). \<not> (m_session_token m = tok \<and> m_personality_id m = pid))
        \<longrightarrow> select_memories st tok pid = [])"
proof (intro conjI)
  show "\<forall>m\<in>set (select_memories st tok pid).
      m \<in> set (conversation_memory st) \<and> m_session_token m = tok \<and> m_personality_id m = pid"
    using select_memories_set by blast
  show "length (select_memories st tok pid) =
       min 10 (length (filter (\<lambda>m. m_session_token m = tok \<and> m_personality_id m = pid)
                         (conversation_memory st)))"
    using select_memories_length by (simp add: matching_def)
  show "sorted_wrt (\<lambda>a b. created_at b \<le> created_at a) (select_memories st tok pid)"
    by (rule select_memories_sorted)
  show "\<forall>m\<in>set (conversation_memory st). \<forall>k\<in>set (select_memories st tok pid).
         m_session_token m = tok \<and> m_personality_id m = pid \<and> m \<notin> set (select_memories st tok pid)
         \<longrightarrow> created_at m \<le> created_at k"
    using select_memories_most_recent [of _ st tok pid] by (simp add: matching_def)
  show "(\<forall>m\<in>set (conversation_memory st). \<not> (m_session_token m = tok \<and> m_personality_id m = pid))
        \<longrightarrow> select_memories st tok pid = []"
  proof
    assume "\<forall>m\<in>set (conversation_memory st). \<not> (m_session_token m = tok \<and> m_personality_id m = pid)"
    then have "matching st tok pid = []" unfolding matching_def by (simp add: filter_empty_conv)
    then show "select_memories st tok pid = []" by (simp add: select_memories_alt)
  qed
qed

section \<open>The prompt composer\<close>

lemma js_join_Cons: "js_join sep (x # xs) = x @ (if xs = [] then [] else sep @ js_join sep xs)"
  by (cases xs) simp_all

lemma render_memory_nonempty: "render_memory m \<noteq> []"
  by (simp add: render_memory_def)

lemma conversationContext_empty_iff:
  "conversationContext w = [] \<longleftrightarrow> w = None \<or> w = Some []"
proof (cases w)
  case None
  then show ?thesis by (simp add: conversationContext_def)
next
  case (Some ms)
  then show ?thesis
    by (cases ms) (simp_all add: conversationContext_def js_join_Cons render_memory_nonempty)
qed

lemma core_field_absent:
  "personalityData = None \<Longrightarrow> core_field personalityData f = None"
  "personalityData = Some pd \<Longrightarrow> core_identity pd = None \<Longrightarrow> core_field personalityData f = None"
  by (simp_all add: core_field_def)

lemma buildSystemPrompt_framing:
  "\<exists>rest. buildSystemPrompt pd ctx =
      persona_framing (persona_name pd) (persona_voice pd) (persona_traits pd) @ rest"
  by (simp add: buildSystemPrompt_def persona_framing_def)

lemma persona_fallbacks:
  "core_field pd name = None \<Longrightarrow> persona_name pd = ''AI Artwork''"
  "core_field pd artistic_voice = None \<Longrightarrow> persona_voice pd = ''contemplative''"
  "core_field pd personality_traits = None \<Longrightarrow> persona_traits pd = ''thoughtful, creative''"
  by (simp_all add: persona_name_def persona_voice_def persona_traits_def or_else_def)

lemma persona_present:
  "core_field pd name = Some n \<Longrightarrow> n \<noteq> [] \<Longrightarrow> persona_name pd = n"
  "core_field pd artistic_voice = Some v \<Longrightarrow> v \<noteq> [] \<Longrightarrow> persona_voice pd = v"
  "core_field pd personality_traits = Some ts \<Longrightarrow> persona_traits pd = js_join '', '' ts"
  by (simp_all add: persona_name_def persona_voice_def persona_traits_def or_else_def)

text \<open>
  Claim C7. \<open>buildSystemPrompt\<close> is a total function of the profile, so it has no failure
  to report, and the prompt opens with the persona framing. For each of the three persona
  fields that is absent (the profile missing, its core identity missing, or the field
  missing) the framing holds the fixed fallback: \<open>AI Artwork\<close>, \<open>contemplative\<close>, and
  \<open>thoughtful, creative\<close>; a field that is present and not empty is used as it is, the
  traits joined by a comma and a blank.
\<close>

theorem buildSystemPrompt_fallbacks:
  "(\<exists>rest. buildSystemPrompt pd ctx =
      persona_framing (persona_name pd) (persona_voice pd) (persona_traits pd) @ rest)
   \<and> (core_field pd name = None \<longrightarrow> persona_name pd = ''AI Artwork'')
   \<and> (core_field pd artistic_voice = None \<longrightarrow> persona_voice pd = ''contemplative'')
   \<and> (core_field pd personality_traits = None \<longrightarrow> persona_traits pd = ''thoughtful, creative'')
   \<and> (\<forall>n. core_field pd name = Some n \<and> n \<noteq> [] \<longrightarrow> persona_name pd = n)
   \<and> (\<forall>v. core_field pd artistic_voice = Some v \<and> v \<noteq> [] \<longrightarrow> persona_voice pd = v)
   \<and> (\<forall>ts. core_field pd personality_traits = Some ts \<longrightarrow> persona_traits pd = js_join '', '' ts)
   \<and> ((pd = None \<or> (\<exists>d. pd = Some d \<and> core_identity d = None)) \<longrightarrow>
        (\<exists>rest. buildSystemPrompt pd ctx =
          ''You are AI Artwork, embodying a contemplative consciousness with thoughtful, creative characteristics.'' @ rest))"
proof -
  have "\<exists>rest. buildSystemPrompt pd ctx =
          ''You are AI Artwork, embodying a contemplative consciousness with thoughtful, creative characteristics.'' @ rest"
    if "pd = None \<or> (\<exists>d. pd = Some d \<and> core_identity d = None)"
  proof -
    from that have "core_field pd name = None" "core_field pd artistic_voice = None"
      "core_field pd personality_traits = None" by (auto simp: core_field_def)
    then show ?thesis using buildSystemPrompt_framing [of pd ctx]
      by (simp add: persona_fallbacks persona_framing_def)
  qed
  then show ?thesis
    using buildSystemPrompt_framing [of pd ctx] persona_fallbacks [of pd] persona_present [of pd]
    by blast
qed

lemma sublist_across_fixed:
  assumes sub: "sublist P (X @ F @ Y)" and Pne: "P \<noteq> []" and hdP: "hd P \<notin> set F"
    and nocompat: "\<And>p1 p2. P = p1 @ p2 \<Longrightarrow> p1 \<noteq> [] \<Longrightarrow> p2 \<noteq> [] \<Longrightarrow> \<not> prefix p2 F \<and> \<not> prefix F p2"
  shows "sublist P X \<or> sublist P Y"
proof -
  have inF: False if "q1 \<noteq> []" "prefix q1 P" "set q1 \<subseteq> set F" for q1
  proof -
    from that(1,2) have "hd q1 = hd P" by (cases q1; cases P) (auto simp: prefix_def)
    moreover have "hd q1 \<in> set F" using that(1,3) by (cases q1) auto
    ultimately show False using hdP by simp
  qed
  have FY: "sublist P Y" if "sublist P (F @ Y)"
  proof -
    from that consider "sublist P F" | "sublist P Y"
      | q1 q2 where "P = q1 @ q2" "suffix q1 F" "prefix q2 Y"
      unfolding sublist_append by blast
    then show ?thesis
    proof cases
      case 1
      then have "set P \<subseteq> set F" by (rule set_mono_sublist)
      with inF [of P] Pne show ?thesis by simp
    next
      case 2
      then show ?thesis .
    next
      case 3
      show ?thesis
      proof (cases "q1 = []")
        case True
        with 3 show ?thesis by auto
      next
        case False
        have "set q1 \<subseteq> set F" using 3(2) by (rule set_mono_suffix)
        with inF [of q1] False 3(1) show ?thesis by (simp add: prefix_def)
      qed
    qed
  qed
  from sub consider "sublist P X" | "sublist P (F @ Y)"
    | p1 p2 where "P = p1 @ p2" "suffix p1 X" "prefix p2 (F @ Y)"
    unfolding sublist_append by blast
  then show ?thesis
  proof cases
    case 1
    then show ?thesis by simp
  next
    case 2
    then show ?thesis using FY by simp
  next
    case 3
    show ?thesis
    proof (cases "p1 = []")
      case True
      with 3 have "sublist P (F @ Y)" by auto
      then show ?thesis using FY by simp
    next
      case p1: False
      show ?thesis
      proof (cases "p2 = []")
        case True
        with 3 show ?thesis by auto
      next
        case False
        from 3(3) have "prefix p2 F \<or> prefix F p2" by (auto simp: prefix_append)
        with nocompat [OF 3(1) p1 False] show ?thesis by simp
      qed
    qed
  qed
qed

lemma no_overlap_hd:
  assumes "F \<noteq> []" "hd F \<notin> set P" "P = p1 @ p2" "p2 \<noteq> []"
  shows "\<not> prefix p2 F \<and> \<not> prefix F p2"
proof -
  have "hd p2 \<in> set P" using assms(3,4) by (cases p2) auto
  moreover have "hd p2 = hd F" if "prefix p2 F \<or> prefix F p2"
    using that assms(1,4) by (cases p2; cases F) (auto simp: prefix_def)
  ultimately show ?thesis using assms(2) by metis
qed

lemma phrase_space_suffix:
  assumes "''Previous conversation:'' = p1 @ p2" "p2 \<noteq> []" "hd p2 = CHR '' ''"
  shows "p2 = '' conversation:''"
proof -
  from assms(2,3) obtain q where "p2 = CHR '' '' # q" by (cases p2) auto
  with assms(1) show ?thesis by (simp add: Cons_eq_append_conv)
qed

lemma no_overlap_space:
  assumes "''Previous conversation:'' = p1 @ p2" "p2 \<noteq> []"
    and F: "hd F = CHR '' ''" "F \<noteq> []" "\<not> prefix '' conversation:'' F" "\<not> prefix F '' conversation:''"
  shows "\<not> prefix p2 F \<and> \<not> prefix F p2"
proof (rule ccontr)
  assume "\<not> (\<not> prefix p2 F \<and> \<not> prefix F p2)"
  then have c: "prefix p2 F \<or> prefix F p2" by simp
  then have "hd p2 = hd F" using assms(2) F(2) by (cases p2; cases F) (auto simp: prefix_def)
  with phrase_space_suffix [OF assms(1,2)] F(1) have "p2 = '' conversation:''" by simp
  with c F(3,4) show False by simp
qed


lemma across_fixed_hd:
  assumes "sublist P (X @ F @ Y)" "P \<noteq> []" "hd P \<notin> set F" "F \<noteq> []" "hd F \<notin> set P"
  shows "sublist P X \<or> sublist P Y"
  using assms(1-3)
proof (rule sublist_across_fixed)
  fix p1 p2 :: "'a list"
  assume "P = p1 @ p2" "p1 \<noteq> []" "p2 \<noteq> []"
  then show "\<not> prefix p2 F \<and> \<not> prefix F p2" using no_overlap_hd [OF assms(4,5)] by blast
qed

lemma across_fixed_space:
  assumes "sublist ''Previous conversation:'' (X @ F @ Y)" "CHR ''P'' \<notin> set F"
    "hd F = CHR '' ''" "F \<noteq> []" "\<not> prefix '' conversation:'' F" "\<not> prefix F '' conversation:''"
  shows "sublist ''Previous conversation:'' X \<or> sublist ''Previous conversation:'' Y"
proof (rule sublist_across_fixed [OF assms(1)])
  show "''Previous conversation:'' \<noteq> []" by simp
  show "hd ''Previous conversation:'' \<notin> set F" using assms(2) by simp
  fix p1 p2 :: string
  assume "''Previous conversation:'' = p1 @ p2" "p1 \<noteq> []" "p2 \<noteq> []"
  then show "\<not> prefix p2 F \<and> \<not> prefix F p2" using no_overlap_space [OF _ _ assms(3-6)] by blast
qed

lemma prompt_empty_context:
  "generation_prompt (buildSystemPrompt pd []) msg =
     [] @ ''You are '' @ persona_name pd @ '', embodying a '' @ persona_voice pd
       @ '' consciousness with '' @ persona_traits pd
       @ '' characteristics.\<newline>\<newline>\<newline>\<newline>Respond authentically as this AI artwork personality. Keep responses conversational and engaging, typically 1-3 sentences.\<newline>\<newline>User: ''
       @ msg @ ''\<newline>\<newline>AI:''"
  by (simp add: generation_prompt_def buildSystemPrompt_def)

lemma phrase_absent:
  assumes "\<not> sublist ''Previous conversation:'' (persona_name pd)"
    "\<not> sublist ''Previous conversation:'' (persona_voice pd)"
    "\<not> sublist ''Previous conversation:'' (persona_traits pd)"
    "\<not> sublist ''Previous conversation:'' msg"
  shows "\<not> sublist ''Previous conversation:'' (generation_prompt (buildSystemPrompt pd []) msg)"
proof
  let ?P = "''Previous conversation:''"
  let ?F3 = "'' characteristics.\<newline>\<newline>\<newline>\<newline>Respond authentically as this AI artwork personality. Keep responses conversational and engaging, typically 1-3 sentences.\<newline>\<newline>User: ''"
  assume "sublist ?P (generation_prompt (buildSystemPrompt pd []) msg)"
  then have s0: "sublist ?P ([] @ ''You are '' @ persona_name pd @ '', embodying a '' @ persona_voice pd
       @ '' consciousness with '' @ persona_traits pd @ ?F3 @ msg @ ''\<newline>\<newline>AI:'')"
    unfolding prompt_empty_context .
  have "sublist ?P [] \<or> sublist ?P (persona_name pd @ '', embodying a '' @ persona_voice pd
       @ '' consciousness with '' @ persona_traits pd @ ?F3 @ msg @ ''\<newline>\<newline>AI:'')"
    by (rule across_fixed_hd [OF s0]) simp_all
  then have s1: "sublist ?P (persona_name pd @ '', embodying a '' @ persona_voice pd
       @ '' consciousness with '' @ persona_traits pd @ ?F3 @ msg @ ''\<newline>\<newline>AI:'')" by simp
  have "sublist ?P (persona_name pd) \<or> sublist ?P (persona_voice pd
       @ '' consciousness with '' @ persona_traits pd @ ?F3 @ msg @ ''\<newline>\<newline>AI:'')"
    by (rule across_fixed_hd [OF s1]) simp_all
  with assms(1) have s2: "sublist ?P (persona_voice pd
       @ '' consciousness with '' @ persona_traits pd @ ?F3 @ msg @ ''\<newline>\<newline>AI:'')" by simp
  have "sublist ?P (persona_voice pd) \<or> sublist ?P (persona_traits pd @ ?F3 @ msg @ ''\<newline>\<newline>AI:'')"
    by (rule across_fixed_space [OF s2]) simp_all
  with assms(2) have s3: "sublist ?P (persona_traits pd @ ?F3 @ msg @ ''\<newline>\<newline>AI:'')" by simp
  have "sublist ?P (persona_traits pd) \<or> sublist ?P (msg @ ''\<newline>\<newline>AI:'')"
    by (rule across_fixed_space [OF s3]) simp_all
  with assms(3) have s4: "sublist ?P (msg @ ''\<newline>\<newline>AI:'' @ [])" by simp
  have "sublist ?P msg \<or> sublist ?P []"
    by (rule across_fixed_hd [OF s4]) simp_all
  with assms(4) show False by simp
qed

section \<open>The handler, step by step\<close>

lemma get_or_create_session_memory:
  "get_or_create_session e st tok = (s, st1, fx) \<Longrightarrow>
     conversation_memory st1 = conversation_memory st \<and>
     artwork_personalities st1 = artwork_personalities st"
  by (auto simp: get_or_create_session_def insert_session_def Let_def split: option.splits if_splits)

lemma select_memories_cong:
  "conversation_memory st1 = conversation_memory st \<Longrightarrow> select_memories st1 = select_memories st"
  by (simp add: select_memories_def fun_eq_iff)

lemma select_personality_cong:
  "artwork_personalities st1 = artwork_personalities st \<Longrightarrow> select_personality st1 = select_personality st"
  by (simp add: select_personality_def fun_eq_iff)

lemma truthy_simps:
  "truthy None = False" "truthy (Some m) = (m \<noteq> [])"
  by (simp_all add: truthy_def)

lemma or_else_Some: "m \<noteq> [] \<Longrightarrow> or_else (Some m) d = m"
  by (simp add: or_else_def)

lemma handler_early:
  "\<not> valid_request e rq \<Longrightarrow> fst (snd (handler e st rq)) = st \<and> snd (snd (handler e st rq)) = []"
  by (auto simp: handler_def valid_request_def Let_def split: option.splits)

lemma handler_valid:
  assumes "http_method rq = ''POST''" "json rq = Some b" "message b = Some m" "m \<noteq> []"
    "personality_id b = Some pid" "pid \<noteq> []" "supabase_env e"
    and "tok = or_else (session_token b) (''session_'' @ fresh_suffix e)"
  shows "handler e st rq =
     (case get_or_create_session e st tok of
        (session, st1, fx1) \<Rightarrow>
          (case read_personality e st1 pid of
             None \<Rightarrow> (error_response 404 ''PERSONALITY_NOT_FOUND'' ''AI personality not found'',
                       st1, fx1 @ [SelectPersonality pid])
           | Some p \<Rightarrow>
               (case respond e st1 session tok pid p (sanitizeInput m 5000) of
                  (r, st2, fx2) \<Rightarrow> (r, st2, fx1 @ [SelectPersonality pid] @ fx2))))"
proof -
  have "handler e st rq =
     (let (session, st1, fx1) = get_or_create_session e st tok
      in case read_personality e st1 pid of
           None \<Rightarrow> (error_response 404 ''PERSONALITY_NOT_FOUND'' ''AI personality not found'',
                     st1, fx1 @ [SelectPersonality pid])
         | Some p \<Rightarrow>
             (let (r, st2, fx2) = respond e st1 session tok pid p (sanitizeInput m 5000)
              in (r, st2, fx1 @ [SelectPersonality pid] @ fx2)))"
    unfolding handler_def using assms(1-7)
    by (simp add: truthy_simps or_else_Some assms(8) [symmetric] del: append.simps)
  then show ?thesis by (simp add: Let_def split: prod.splits option.splits)
qed

lemma valid_requestD:
  assumes "valid_request e rq"
  obtains b m pid where "http_method rq = ''POST''" "json rq = Some b" "message b = Some m" "m \<noteq> []"
    "personality_id b = Some pid" "pid \<noteq> []" "supabase_env e"
  using assms by (auto simp: valid_request_def truthy_def split: option.splits)

section \<open>Sessions\<close>

lemma filter_distinct_key:
  "distinct (map f xs) \<Longrightarrow> x \<in> set xs \<Longrightarrow> filter (\<lambda>y. f y = f x) xs = [x]"
proof (induction xs)
  case Nil
  then show ?case by simp
next
  case (Cons a xs)
  show ?case
  proof (cases "a = x")
    case True
    have "f x \<notin> f ` set xs" using Cons.prems(1) True by simp
    then have "\<forall>y\<in>set xs. f y \<noteq> f x" by (metis imageI)
    then have "filter (\<lambda>y. f y = f x) xs = []" by (simp add: filter_empty_conv)
    with True show ?thesis by simp
  next
    case False
    with Cons.prems have "x \<in> set xs" "f a \<noteq> f x" by auto
    with Cons show ?thesis by simp
  qed
qed

lemma select_session_known:
  assumes "distinct (tokens st)" "s \<in> set (user_sessions st)"
  shows "select_session st (s_session_token s) = Some s"
  using filter_distinct_key [of s_session_token "user_sessions st" s] assms
  by (simp add: select_session_def single_row_def tokens_def)

lemma single_row_SomeD: "single_row xs = Some x \<Longrightarrow> xs = [x]"
  by (auto simp: single_row_def split: list.splits)

lemma select_session_SomeD:
  "select_session st tok = Some s \<Longrightarrow> s \<in> set (user_sessions st) \<and> s_session_token s = tok"
proof -
  assume "select_session st tok = Some s"
  then have "filter (\<lambda>s. s_session_token s = tok) (user_sessions st) = [s]"
    unfolding select_session_def by (rule single_row_SomeD)
  then have "s \<in> set (filter (\<lambda>s. s_session_token s = tok) (user_sessions st))" by simp
  then show ?thesis by simp
qed

lemma select_session_None_distinct:
  assumes "distinct (tokens st)" "select_session st tok = None"
  shows "tok \<notin> set (tokens st)"
proof
  assume "tok \<in> set (tokens st)"
  then obtain s where "s \<in> set (user_sessions st)" "s_session_token s = tok"
    by (auto simp: tokens_def)
  with select_session_known [OF assms(1)] assms(2) show False by auto
qed

text \<open>
  Claim C9. When the tokens of the session table are pairwise distinct, a session with the
  token exists and the read of the session table succeeds, resolving the token returns
  that session and leaves the store as it was, with a single read and no insert;
  resolving again, in any outside world whose read succeeds, returns the same session
  from the same store; and the table still holds exactly one row with the token.
\<close>

theorem resolve_known_session:
  assumes "distinct (tokens st)" and "s \<in> set (user_sessions st)" and "s_session_token s = tok"
    and "session_select_ok e"
  shows "get_or_create_session e st tok = (Some s, st, [SelectSession tok])
     \<and> (\<forall>e'. session_select_ok e' \<longrightarrow>
            get_or_create_session e' (fst (snd (get_or_create_session e st tok))) tok
              = (Some s, st, [SelectSession tok]))
     \<and> length (filter (\<lambda>x. s_session_token x = tok)
           (user_sessions (fst (snd (get_or_create_session e st tok))))) = 1"
proof -
  have sel: "select_session st tok = Some s" using select_session_known [OF assms(1,2)] assms(3) by simp
  then have g: "get_or_create_session e' st tok = (Some s, st, [SelectSession tok])"
    if "session_select_ok e'" for e'
    using that by (simp add: get_or_create_session_def read_session_def)
  have "filter (\<lambda>x. s_session_token x = tok) (user_sessions st) = [s]"
    using sel unfolding select_session_def by (rule single_row_SomeD)
  with g assms(4) show ?thesis by simp
qed

lemma read_session_ok: "session_select_ok e \<Longrightarrow> read_session e st tok = select_session st tok"
  by (simp add: read_session_def)

lemma get_or_create_session_distinct:
  assumes "distinct (tokens st)" "get_or_create_session e st tok = (s, st1, fx)"
    and "session_select_ok e"
  shows "distinct (tokens st1)"
proof (cases "select_session st tok")
  case None
  from select_session_None_distinct [OF assms(1) None] assms show ?thesis
    by (auto simp: get_or_create_session_def read_session_ok None insert_session_def tokens_def
        Let_def split: if_splits)
next
  case (Some a)
  with assms show ?thesis by (simp add: get_or_create_session_def read_session_ok)
qed

lemma get_or_create_session_new:
  assumes "distinct (tokens st)" "select_session st tok = None"
    and "get_or_create_session e st tok = (Some s, st1, fx)"
  shows "total_conversations s = 1" and "select_session st1 tok = Some s"
proof -
  have r: "read_session e st tok = None" using assms(2) by (simp add: read_session_def)
  have "tok \<notin> set (tokens st)" using select_session_None_distinct [OF assms(1,2)] .
  then have f: "filter (\<lambda>s. s_session_token s = tok) (user_sessions st) = []"
    by (auto simp: tokens_def filter_empty_conv)
  from assms(3) r show "total_conversations s = 1"
    by (auto simp: get_or_create_session_def Let_def split: if_splits)
  from assms(3) r f show "select_session st1 tok = Some s"
    by (auto simp: get_or_create_session_def insert_session_def select_session_def single_row_def
        Let_def split: if_splits)
qed

lemma get_or_create_session_result:
  assumes "distinct (tokens st)" "get_or_create_session e st tok = (s, st1, fx)"
    and "session_select_ok e"
  shows "select_session st1 tok = s"
    and "s = None \<Longrightarrow> tok \<notin> set (tokens st1)"
    and "select_session st tok = None \<Longrightarrow> s = Some s' \<Longrightarrow> total_conversations s' = 1"
    and "tok' \<noteq> tok \<Longrightarrow> select_session st1 tok' = select_session st tok'"
    and "select_session st tok = Some s0 \<Longrightarrow> s = Some s0 \<and> st1 = st"
proof -
  note ok = read_session_ok [OF assms(3)]
  show "select_session st tok = Some s0 \<Longrightarrow> s = Some s0 \<and> st1 = st"
    using assms(2) by (simp add: get_or_create_session_def ok)
  show "tok' \<noteq> tok \<Longrightarrow> select_session st1 tok' = select_session st tok'"
    using assms(2)
    by (auto simp: get_or_create_session_def insert_session_def select_session_def Let_def
        split: option.splits if_splits)
  show "select_session st tok = None \<Longrightarrow> s = Some s' \<Longrightarrow> total_conversations s' = 1"
    using assms(2) by (auto simp: get_or_create_session_def ok Let_def split: if_splits)
  show "s = None \<Longrightarrow> tok \<notin> set (tokens st1)"
    using assms select_session_None_distinct [OF assms(1), of tok]
    by (auto simp: get_or_create_session_def ok Let_def split: option.splits if_splits)
  show "select_session st1 tok = s"
  proof (cases "select_session st tok")
    case (Some a)
    with assms(2) show ?thesis by (simp add: get_or_create_session_def ok)
  next
    case None
    then have "tok \<notin> set (tokens st)" using select_session_None_distinct [OF assms(1)] by simp
    then have "filter (\<lambda>s. s_session_token s = tok) (user_sessions st) = []"
      by (auto simp: tokens_def filter_empty_conv)
    with assms(2) None show ?thesis
      by (auto simp: get_or_create_session_def ok insert_session_def select_session_def
          single_row_def Let_def split: if_splits)
  qed
qed


lemma tokens_update_session [simp]: "tokens (update_session st tok la tc) = tokens st"
  by (simp add: tokens_def update_session_def comp_def if_distrib [of s_session_token])

lemma tokens_insert_memory [simp]: "tokens (insert_memory st row) = tokens st"
  by (simp add: tokens_def insert_memory_def)

lemma select_session_insert_memory [simp]:
  "select_session (insert_memory st row) tok = select_session st tok"
  by (simp add: select_session_def insert_memory_def)

lemma single_row_map: "single_row (map f xs) = map_option f (single_row xs)"
proof (cases xs)
  case Nil
  then show ?thesis by (simp add: single_row_def)
next
  case (Cons a ys)
  then show ?thesis by (cases ys) (simp_all add: single_row_def)
qed

lemma select_session_update_same:
  "select_session (update_session st tok la tc) tok =
     map_option (\<lambda>s. s\<lparr>last_active := la, total_conversations := tc\<rparr>) (select_session st tok)"
proof -
  let ?f = "\<lambda>s. if s_session_token s = tok then s\<lparr>last_active := la, total_conversations := tc\<rparr> else s"
  have eq: "filter (\<lambda>s. s_session_token s = tok) (map ?f xs) =
          map (\<lambda>s. s\<lparr>last_active := la, total_conversations := tc\<rparr>) (filter (\<lambda>s. s_session_token s = tok) xs)"
    for xs by (induction xs) auto
  show ?thesis by (simp add: select_session_def update_session_def single_row_map eq del: filter_map)
qed

lemma select_session_update_other:
  assumes "tok' \<noteq> tok"
  shows "select_session (update_session st tok la tc) tok' = select_session st tok'"
proof -
  let ?f = "\<lambda>s. if s_session_token s = tok then s\<lparr>last_active := la, total_conversations := tc\<rparr> else s"
  have eq: "filter (\<lambda>s. s_session_token s = tok') (map ?f xs) = filter (\<lambda>s. s_session_token s = tok') xs"
    for xs using assms by (induction xs) auto
  show ?thesis by (simp add: select_session_def update_session_def eq del: filter_map)
qed

lemma next_total_Some: "next_total (Some s) = js_add_one (total_conversations s)"
  by (simp add: next_total_def)

lemma js_add_one_ge: "n \<le> js_add_one n"
  by (simp add: js_add_one_def)

lemma js_add_one_exact: "- (2 ^ 53) \<le> n \<Longrightarrow> n < 2 ^ 53 \<Longrightarrow> js_add_one n = n + 1"
  by (simp add: js_add_one_def)

lemma js_add_one_limit: "js_add_one (2 ^ 53) = 2 ^ 53" "js_add_one (2 ^ 53 + 2) = 2 ^ 53 + 4"
  by (simp_all add: js_add_one_def)

lemma conversation_memory_update_session [simp]:
  "conversation_memory (update_session st tok la tc) = conversation_memory st"
  by (simp add: update_session_def)

lemma conversation_memory_insert_memory [simp]:
  "conversation_memory (insert_memory st row) = conversation_memory st @ [row]"
  by (simp add: insert_memory_def)

lemma persist_turn_store:
  "fst (persist_turn e st session tok row) =
     (let st1 = (if memory_insert_ok e then insert_memory st row else st)
      in if session_update_ok e then update_session st1 tok (now e) (next_total session) else st1)"
  by (simp add: persist_turn_def Let_def)

lemma persist_turn_sessions:
  assumes "st' = fst (persist_turn e st (select_session st tok) tok row)"
  shows "tokens st' = tokens st"
    and "tok' \<noteq> tok \<Longrightarrow> select_session st' tok' = select_session st tok'"
    and "select_session st tok = Some s \<Longrightarrow>
           \<exists>s'. select_session st' tok = Some s' \<and>
             total_conversations s' =
               (if session_update_ok e then js_add_one (total_conversations s) else total_conversations s)"
    and "select_session st tok = None \<Longrightarrow> select_session st' tok = None"
    and "conversation_memory st' = (if memory_insert_ok e then conversation_memory st @ [row] else conversation_memory st)"
proof -
  show "tokens st' = tokens st" by (simp add: assms persist_turn_store Let_def)
  show "tok' \<noteq> tok \<Longrightarrow> select_session st' tok' = select_session st tok'"
    by (simp add: assms persist_turn_store Let_def select_session_update_other)
  show "select_session st tok = Some s \<Longrightarrow>
           \<exists>s'. select_session st' tok = Some s' \<and>
             total_conversations s' =
               (if session_update_ok e then js_add_one (total_conversations s) else total_conversations s)"
    by (simp add: assms persist_turn_store Let_def select_session_update_same next_total_Some)
  show "select_session st tok = None \<Longrightarrow> select_session st' tok = None"
    by (simp add: assms persist_turn_store Let_def select_session_update_same)
  show "conversation_memory st' = (if memory_insert_ok e then conversation_memory st @ [row] else conversation_memory st)"
    by (simp add: assms persist_turn_store Let_def)
qed

lemma respond_result:
  assumes "respond e st session tok pid p msg = (r, st', fx)"
  shows "(\<not> truthy (gemini_api_key e) \<and> r = internal_error \<and> st' = st \<and> fx = [SelectMemory tok pid])
       \<or> (truthy (gemini_api_key e) \<and> r = internal_error \<and> st' = st \<and>
            fx = [SelectMemory tok pid, Generate (turn_prompt e st tok pid p msg)] \<and>
            (\<forall>t. gemini e (turn_prompt e st tok pid p msg) = OkText (Some t) \<longrightarrow> trim t = []))
       \<or> (\<exists>t. truthy (gemini_api_key e) \<and>
             gemini e (turn_prompt e st tok pid p msg) = OkText (Some t) \<and> trim t \<noteq> [] \<and>
             r = success_response (trim t) tok p \<and>
             st' = fst (persist_turn e st session tok (new_memory e tok p pid msg (trim t))) \<and>
             fx = [SelectMemory tok pid, Generate (turn_prompt e st tok pid p msg),
                   InsertMemory (new_memory e tok p pid msg (trim t)),
                   UpdateSession tok (now e) (next_total session)])"
  using assms unfolding respond_def turn_prompt_def [symmetric] persist_turn_def Let_def
  by (auto split: if_splits gemini_result.splits option.splits)

lemma handler_cases:
  assumes "handler e st rq = (r, st', fx)"
  obtains (early) "\<not> valid_request e rq" "st' = st" "fx = []"
  | (not_found) b m pid tok s st1 fx1 where
      "json rq = Some b" "message b = Some m" "m \<noteq> []" "personality_id b = Some pid" "pid \<noteq> []"
      "tok = or_else (session_token b) (''session_'' @ fresh_suffix e)"
      "get_or_create_session e st tok = (s, st1, fx1)" "read_personality e st1 pid = None"
      "r = error_response 404 ''PERSONALITY_NOT_FOUND'' ''AI personality not found''"
      "st' = st1" "fx = fx1 @ [SelectPersonality pid]"
  | (conversed) b m pid tok s st1 fx1 p fx2 where
      "json rq = Some b" "message b = Some m" "m \<noteq> []" "personality_id b = Some pid" "pid \<noteq> []"
      "tok = or_else (session_token b) (''session_'' @ fresh_suffix e)"
      "get_or_create_session e st tok = (s, st1, fx1)" "select_personality st1 pid = Some p"
      "respond e st1 s tok pid p (sanitizeInput m 5000) = (r, st', fx2)"
      "fx = fx1 @ [SelectPersonality pid] @ fx2" "personality_select_ok e"
proof (cases "valid_request e rq")
  case False
  from handler_early [OF False, of st] assms have "st' = st" "fx = []" by simp_all
  with False show ?thesis by (rule early)
next
  case True
  then obtain b m pid where rq: "http_method rq = ''POST''" "json rq = Some b" "message b = Some m"
    "m \<noteq> []" "personality_id b = Some pid" "pid \<noteq> []" "supabase_env e"
    by (rule valid_requestD)
  define tok where "tok = or_else (session_token b) (''session_'' @ fresh_suffix e)"
  obtain s st1 fx1 where g: "get_or_create_session e st tok = (s, st1, fx1)"
    by (cases "get_or_create_session e st tok") auto
  note h = handler_valid [OF rq tok_def, of st, unfolded g]
  show ?thesis
  proof (cases "read_personality e st1 pid")
    case None
    with h assms have "r = error_response 404 ''PERSONALITY_NOT_FOUND'' ''AI personality not found''"
      "st' = st1" "fx = fx1 @ [SelectPersonality pid]" by simp_all
    with rq tok_def g None show ?thesis by (intro not_found [of b m pid tok s st1 fx1]) simp_all
  next
    case (Some p)
    then have sp: "select_personality st1 pid = Some p" "personality_select_ok e"
      by (simp_all add: read_personality_def split: if_splits)
    obtain r2 st2 fx2 where c: "respond e st1 s tok pid p (sanitizeInput m 5000) = (r2, st2, fx2)"
      by (cases "respond e st1 s tok pid p (sanitizeInput m 5000)") auto
    with h Some assms have "r = r2" "st' = st2" "fx = fx1 @ [SelectPersonality pid] @ fx2" by simp_all
    with rq tok_def g sp c show ?thesis by (intro conversed [of b m pid tok s st1 fx1 p fx2]) simp_all
  qed
qed

lemma handler_session_step:
  assumes d: "distinct (tokens st)" and h: "handler e st rq = (r, st', fx)"
    and ok: "session_select_ok e"
  shows "distinct (tokens st')"
    and "select_session st t = Some x \<Longrightarrow>
           \<exists>x'. select_session st' t = Some x' \<and> total_conversations x \<le> total_conversations x'"
proof -
  have "distinct (tokens st') \<and> (select_session st t = Some x \<longrightarrow>
           (\<exists>x'. select_session st' t = Some x' \<and> total_conversations x \<le> total_conversations x'))"
    using h
  proof (cases rule: handler_cases)
    case early
    then show ?thesis using d by simp
  next
    case (not_found b m pid tok s st1 fx1)
    note g = get_or_create_session_result [OF d not_found(7) ok]
    have "select_session st t = Some x \<Longrightarrow> select_session st1 t = Some x"
      using g(4) [of t] g(5) [of x] g(1) by (cases "t = tok") auto
    then show ?thesis using get_or_create_session_distinct [OF d not_found(7) ok] not_found(10) by simp
  next
    case (conversed b m pid tok s st1 fx1 p fx2)
    note g = get_or_create_session_result [OF d conversed(7) ok]
    have d1: "distinct (tokens st1)" using get_or_create_session_distinct [OF d conversed(7) ok] .
    have keep: "select_session st t = Some x \<Longrightarrow> select_session st1 t = Some x"
      using g(4) [of t] g(5) [of x] g(1) by (cases "t = tok") auto
    from respond_result [OF conversed(9)] consider "st' = st1"
      | row where "st' = fst (persist_turn e st1 s tok row)" by blast
    then show ?thesis
    proof cases
      case 1
      then show ?thesis using d1 keep by simp
    next
      case 2
      then have st': "st' = fst (persist_turn e st1 (select_session st1 tok) tok row)" using g(1) by simp
      note pt = persist_turn_sessions [OF st']
      have "\<exists>x'. select_session st' t = Some x' \<and> total_conversations x \<le> total_conversations x'"
        if "select_session st t = Some x"
      proof (cases "t = tok")
        case True
        from keep [OF that] True pt(3) [of x] js_add_one_ge [of "total_conversations x"]
        show ?thesis by auto
      next
        case False
        from keep [OF that] pt(2) [OF False] show ?thesis by simp
      qed
      then show ?thesis using d1 pt(1) by simp
    qed
  qed
  then show "distinct (tokens st')"
    and "select_session st t = Some x \<Longrightarrow>
           \<exists>x'. select_session st' t = Some x' \<and> total_conversations x \<le> total_conversations x'"
    by simp_all
qed

lemma run_session_monotone:
  assumes "distinct (tokens st)" "select_session st t = Some x"
    and "\<forall>a\<in>set reqs. session_select_ok (fst a)"
  shows "distinct (tokens (run st reqs)) \<and>
         (\<exists>x'. select_session (run st reqs) t = Some x' \<and> total_conversations x \<le> total_conversations x')"
  using assms
proof (induction reqs arbitrary: st x)
  case Nil
  then show ?case by simp
next
  case (Cons a reqs)
  obtain e rq where a: "a = (e, rq)" by (cases a)
  obtain r st' fx where h: "handler e st rq = (r, st', fx)" by (cases "handler e st rq") auto
  have ok: "session_select_ok e" using Cons.prems(3) a by simp
  have rest: "\<forall>a\<in>set reqs. session_select_ok (fst a)" using Cons.prems(3) by simp
  from handler_session_step [OF Cons.prems(1) h ok] Cons.prems(2)
  obtain x' where x': "distinct (tokens st')" "select_session st' t = Some x'"
    "total_conversations x \<le> total_conversations x'" by blast
  from Cons.IH [OF x'(1,2) rest] x'(3) show ?case using a h by auto
qed

lemma get_or_create_session_fx:
  assumes "get_or_create_session e st tok = (s, st1, fx)"
  shows "Generate prompt \<notin> set fx" "InsertMemory row \<notin> set fx"
    "UpdateSession t la tc \<notin> set fx" "SelectMemory t p \<notin> set fx"
proof -
  have "fx = [SelectSession tok] \<or>
        fx = [SelectSession tok, InsertSession \<lparr>s_session_token = tok, first_visit = now e,
                 last_active = now e, total_conversations = 1\<rparr>]"
  proof (cases "read_session e st tok")
    case None
    with assms show ?thesis
      by (cases "session_insert_ok e") (auto simp add: get_or_create_session_def Let_def)
  next
    case (Some a)
    with assms show ?thesis by (simp add: get_or_create_session_def)
  qed
  then show "Generate prompt \<notin> set fx" "InsertMemory row \<notin> set fx"
    "UpdateSession t la tc \<notin> set fx" "SelectMemory t p \<notin> set fx" by auto
qed

lemma turn_prompt_cong:
  "conversation_memory st1 = conversation_memory st \<Longrightarrow>
     turn_prompt e st1 tok pid p msg = turn_prompt e st tok pid p msg"
  using select_memories_cong [of st1 st] by (simp add: turn_prompt_def)

lemma status_simps [simp]:
  "status (success_response t tok p) = 200"
  "status (error_response n c m) = n"
  "status internal_error = 500"
  by (simp_all add: success_response_def error_response_def internal_error_def)

lemma reply_of_simps [simp]:
  "reply_of (success_response t tok p) = Some t"
  "reply_of (error_response n c m) = None"
  "reply_of internal_error = None"
  by (simp_all add: reply_of_def success_response_def error_response_def internal_error_def
      createApiResponse_def)

lemma error_code_simps [simp]:
  "error_code (success_response t tok p) = None"
  "error_code (error_response n c m) = Some c"
  "error_code internal_error = Some ''INTERNAL_ERROR''"
  by (simp_all add: error_code_def success_response_def error_response_def internal_error_def
      createApiResponse_def createApiError_def)

lemma handler_generated:
  assumes h: "handler e st rq = (r, st', fx)" and gen: "Generate prompt \<in> set fx"
  obtains b m pid tok s st1 fx1 p fx2 where
      "json rq = Some b" "message b = Some m" "m \<noteq> []" "personality_id b = Some pid" "pid \<noteq> []"
      "tok = or_else (session_token b) (''session_'' @ fresh_suffix e)"
      "get_or_create_session e st tok = (s, st1, fx1)" "select_personality st1 pid = Some p"
      "respond e st1 s tok pid p (sanitizeInput m 5000) = (r, st', fx2)"
      "fx = fx1 @ [SelectPersonality pid] @ fx2"
      "prompt = turn_prompt e st1 tok pid p (sanitizeInput m 5000)"
      "conversation_memory st1 = conversation_memory st" "Generate prompt \<in> set fx2"
  using h
proof (cases rule: handler_cases)
  case early
  with gen show ?thesis by simp
next
  case (not_found b m pid tok s st1 fx1)
  with gen get_or_create_session_fx(1) [OF not_found(7)] show ?thesis by auto
next
  case (conversed b m pid tok s st1 fx1 p fx2)
  from gen conversed(10) get_or_create_session_fx(1) [OF conversed(7), of prompt]
  have g2: "Generate prompt \<in> set fx2" by auto
  with respond_result [OF conversed(9)]
  have "prompt = turn_prompt e st1 tok pid p (sanitizeInput m 5000)" by auto
  moreover have "conversation_memory st1 = conversation_memory st"
    using get_or_create_session_memory [OF conversed(7)] by simp
  ultimately show ?thesis using conversed g2 that by blast
qed

text \<open>
  Claim C3. When the generation service has been called and has answered with text that
  is not blank, and the insert of the memory row fails, the handler still answers with
  status 200 and the generated reply, with no error code; the memory table is left as it
  was, so the turn is lost; and nothing is rolled back: the insert was attempted and the
  update of the session is still issued.
\<close>

theorem reply_survives_failed_memory_write:
  assumes "handler e st rq = (r, st', fx)" and "Generate prompt \<in> set fx"
    and "gemini e prompt = OkText (Some t)" and "trim t \<noteq> []" and "\<not> memory_insert_ok e"
  shows "status r = 200 \<and> reply_of r = Some (trim t) \<and> error_code r = None
     \<and> conversation_memory st' = conversation_memory st
     \<and> (\<exists>row. InsertMemory row \<in> set fx \<and> ai_response row = trim t)
     \<and> (\<exists>tok la tc. UpdateSession tok la tc \<in> set fx)"
  using assms(1,2)
proof (cases rule: handler_generated)
  case (1 b m pid tok s st1 fx1 p fx2)
  let ?msg = "sanitizeInput m 5000"
  from respond_result [OF 1(9)] assms(3,4) 1(11,13)
  have r: "r = success_response (trim t) tok p"
    and st': "st' = fst (persist_turn e st1 s tok (new_memory e tok p pid ?msg (trim t)))"
    and fx2: "fx2 = [SelectMemory tok pid, Generate prompt,
                   InsertMemory (new_memory e tok p pid ?msg (trim t)),
                   UpdateSession tok (now e) (next_total s)]"
    by auto
  have "conversation_memory st' = conversation_memory st1"
    using assms(5) by (simp add: st' persist_turn_store Let_def)
  moreover have "ai_response (new_memory e tok p pid ?msg (trim t)) = trim t"
    by (simp add: new_memory_def)
  ultimately show ?thesis using r fx2 1(10,12) by auto
qed

lemma trim_all_space:
  assumes "\<forall>c\<in>set s. is_space c"
  shows "trim s = []"
proof -
  have "dropWhile is_space s = []" using assms by simp
  then show ?thesis unfolding trim_def by (simp del: dropWhile_eq_Nil_conv)
qed

lemma handler_early_response:
  assumes "\<not> valid_request e rq"
  shows "fst (handler e st rq) =
     (if http_method rq = ''OPTIONS'' then \<lparr>status = 200, content = Text ''ok''\<rparr>
      else if http_method rq \<noteq> ''POST''
      then error_response 405 ''METHOD_NOT_ALLOWED'' ''Only POST requests are allowed''
      else (case json rq of
              None \<Rightarrow> internal_error
            | Some b \<Rightarrow>
                if \<not> truthy (message b) \<or> \<not> truthy (personality_id b)
                then error_response 400 ''INVALID_REQUEST''
                       ''Missing required fields: message, personality_id''
                else internal_error))"
  using assms by (auto simp: handler_def valid_request_def Let_def split: option.splits)

lemma error_code_preflight [simp]: "error_code \<lparr>status = 200, content = Text t\<rparr> = None"
  by (simp add: error_code_def)

lemma handler_invalid_request:
  assumes "handler e st rq = (r, st', fx)" "error_code r = Some ''INVALID_REQUEST''"
  shows "\<exists>b. json rq = Some b \<and> (\<not> truthy (message b) \<or> \<not> truthy (personality_id b))"
  using assms(1)
proof (cases rule: handler_cases)
  case early
  from handler_early_response [OF early(1), of st] assms show ?thesis
    by (auto split: if_splits option.splits)
next
  case (not_found b m pid tok s st1 fx1)
  with assms(2) show ?thesis by simp
next
  case (conversed b m pid tok s st1 fx1 p fx2)
  from respond_result [OF conversed(9)] assms(2) show ?thesis by auto
qed

lemma handler_inserted:
  assumes h: "handler e st rq = (r, st', fx)" and ins: "InsertMemory row \<in> set fx"
  obtains b m pid tok s st1 fx1 p t where
      "json rq = Some b" "message b = Some m" "m \<noteq> []" "personality_id b = Some pid" "pid \<noteq> []"
      "tok = or_else (session_token b) (''session_'' @ fresh_suffix e)"
      "get_or_create_session e st tok = (s, st1, fx1)" "select_personality st1 pid = Some p"
      "trim t \<noteq> []" "row = new_memory e tok p pid (sanitizeInput m 5000) (trim t)"
      "r = success_response (trim t) tok p" "st' = fst (persist_turn e st1 s tok row)"
  using h
proof (cases rule: handler_cases)
  case early
  with ins show ?thesis by simp
next
  case (not_found b m pid tok s st1 fx1)
  with ins get_or_create_session_fx(2) [OF not_found(7), of row] show ?thesis by auto
next
  case (conversed b m pid tok s st1 fx1 p fx2)
  from ins conversed(10) get_or_create_session_fx(2) [OF conversed(7), of row]
  have "InsertMemory row \<in> set fx2" by auto
  with respond_result [OF conversed(9)] obtain t where
    "trim t \<noteq> []" "row = new_memory e tok p pid (sanitizeInput m 5000) (trim t)"
    "r = success_response (trim t) tok p" "st' = fst (persist_turn e st1 s tok row)"
    by auto
  with conversed that show ?thesis by blast
qed

lemma generation_prompt_suffix:
  "suffix (''\<newline>\<newline>User: '' @ msg @ ''\<newline>\<newline>AI:'') (generation_prompt sys msg)"
  unfolding generation_prompt_def by (rule suffixI) simp

lemma turn_prompt_suffix:
  "suffix (''\<newline>\<newline>User: '' @ msg @ ''\<newline>\<newline>AI:'') (turn_prompt e st tok pid p msg)"
  unfolding turn_prompt_def by (rule generation_prompt_suffix)

lemma handler_reaches_generation:
  assumes "valid_request e rq" "json rq = Some b" "personality_id b = Some pid"
    "read_personality e st pid = Some p" "truthy (gemini_api_key e)"
  shows "\<exists>prompt. Generate prompt \<in> set (snd (snd (handler e st rq)))"
proof -
  obtain r st' fx where h: "handler e st rq = (r, st', fx)" by (cases "handler e st rq") auto
  from h show ?thesis
  proof (cases rule: handler_cases)
    case early
    with assms(1) show ?thesis by simp
  next
    case (not_found b' m pid' tok s st1 fx1)
    from get_or_create_session_memory [OF not_found(7), THEN conjunct2]
    have "select_personality st1 = select_personality st" by (rule select_personality_cong)
    then have "read_personality e st1 pid' = read_personality e st pid'"
      by (simp add: read_personality_def)
    with not_found assms show ?thesis by simp
  next
    case (conversed b' m pid' tok s st1 fx1 p' fx2)
    from respond_result [OF conversed(9)] assms(5) conversed(10) h show ?thesis by auto
  qed
qed

text \<open>
  Claim C5. A request whose body lacks \<open>message\<close> or \<open>personality_id\<close>, or holds the
  empty string there, makes no call to the store and none to the generation service and
  leaves the store as it was, whatever its method; when it is a POST request, the
  handler answers 400 with the code \<open>INVALID_REQUEST\<close>.
\<close>

theorem validation_before_side_effects:
  assumes "json rq = Some b"
    and "message b = None \<or> message b = Some [] \<or> personality_id b = None \<or> personality_id b = Some []"
  shows "snd (snd (handler e st rq)) = [] \<and> fst (snd (handler e st rq)) = st
     \<and> (http_method rq = ''POST'' \<longrightarrow>
          status (fst (handler e st rq)) = 400 \<and>
          error_code (fst (handler e st rq)) = Some ''INVALID_REQUEST'')"
proof -
  from assms have nt: "\<not> truthy (message b) \<or> \<not> truthy (personality_id b)"
    by (auto simp: truthy_simps)
  with assms(1) have nv: "\<not> valid_request e rq" by (auto simp: valid_request_def)
  from handler_early [OF nv, of st] handler_early_response [OF nv, of st] assms(1) nt
  show ?thesis by auto
qed

text \<open>
  Claim C10. A message that is not empty and whose first 5000 characters are all white
  space passes the validation: the answer is never \<open>INVALID_REQUEST\<close>. It is sanitized to
  the empty string, and the empty string is what every prompt sent to the generation
  service holds under \<open>User:\<close> and what every memory row written holds as
  \<open>user_message\<close>. The pipeline does proceed: with the store client configured, the
  personality read answering with a row and the API key set, the generation service is
  called, and when it answers with text the turn is answered with status 200 and a memory
  row is written.
\<close>

theorem whitespace_message_proceeds_as_empty:
  assumes h: "handler e st rq = (r, st', fx)" and b: "json rq = Some b"
    and m: "message b = Some m" "m \<noteq> []" "\<forall>c\<in>set (take 5000 m). is_space c"
    and pid: "personality_id b = Some pid" "pid \<noteq> []"
  shows "sanitizeInput m 5000 = []
     \<and> error_code r \<noteq> Some ''INVALID_REQUEST''
     \<and> (\<forall>prompt. Generate prompt \<in> set fx \<longrightarrow> suffix ''\<newline>\<newline>User: \<newline>\<newline>AI:'' prompt)
     \<and> (\<forall>row. InsertMemory row \<in> set fx \<longrightarrow>
            user_message row = [] \<and>
            (memory_insert_ok e \<longrightarrow> conversation_memory st' = conversation_memory st @ [row]))
     \<and> (http_method rq = ''POST'' \<and> supabase_env e \<and> read_personality e st pid \<noteq> None \<and>
          truthy (gemini_api_key e) \<longrightarrow> (\<exists>prompt. Generate prompt \<in> set fx))
     \<and> (\<forall>prompt t. Generate prompt \<in> set fx \<and> gemini e prompt = OkText (Some t) \<and> trim t \<noteq> []
            \<longrightarrow> status r = 200 \<and> (\<exists>row. InsertMemory row \<in> set fx))"
proof (intro conjI allI impI)
  show san: "sanitizeInput m 5000 = []"
    unfolding sanitizeInput_def using m(3) by (rule trim_all_space)
  show "error_code r \<noteq> Some ''INVALID_REQUEST''"
  proof
    assume "error_code r = Some ''INVALID_REQUEST''"
    from handler_invalid_request [OF h this] b m pid show False by (simp add: truthy_simps)
  qed
  show "suffix ''\<newline>\<newline>User: \<newline>\<newline>AI:'' prompt" if "Generate prompt \<in> set fx" for prompt
    using h that
  proof (cases rule: handler_generated)
    case (1 b' m' pid' tok s st1 fx1 p fx2)
    with b m have "m' = m" by simp
    with 1(11) san turn_prompt_suffix [of "[]" e st1 tok pid' p] show ?thesis by simp
  qed
  show "user_message row = []" if "InsertMemory row \<in> set fx" for row
    using h that
  proof (cases rule: handler_inserted)
    case (1 b' m' pid' tok s st1 fx1 p t)
    with b m have "m' = m" by simp
    with 1(10) san show ?thesis by (simp add: new_memory_def)
  qed
  show "conversation_memory st' = conversation_memory st @ [row]"
    if "InsertMemory row \<in> set fx" "memory_insert_ok e" for row
    using h that(1)
  proof (cases rule: handler_inserted)
    case (1 b' m' pid' tok s st1 fx1 p t)
    from get_or_create_session_memory [OF 1(7)] 1(12) that(2) show ?thesis
      by (simp add: persist_turn_store Let_def)
  qed
  show "\<exists>prompt. Generate prompt \<in> set fx"
    if "http_method rq = ''POST'' \<and> supabase_env e \<and> read_personality e st pid \<noteq> None \<and>
          truthy (gemini_api_key e)"
  proof -
    from that b m pid have v: "valid_request e rq" by (simp add: valid_request_def truthy_simps)
    from that obtain p where "read_personality e st pid = Some p" by auto
    from handler_reaches_generation [OF v b pid(1) this, of ] that h show ?thesis by simp
  qed
  show "status r = 200"
    if "Generate prompt \<in> set fx \<and> gemini e prompt = OkText (Some t) \<and> trim t \<noteq> []" for prompt t
    using h conjunct1 [OF that]
  proof (cases rule: handler_generated)
    case (1 b' m' pid' tok s st1 fx1 p fx2)
    from respond_result [OF 1(9)] that 1(11,13) show ?thesis by auto
  qed
  show "\<exists>row. InsertMemory row \<in> set fx"
    if "Generate prompt \<in> set fx \<and> gemini e prompt = OkText (Some t) \<and> trim t \<noteq> []" for prompt t
    using h conjunct1 [OF that]
  proof (cases rule: handler_generated)
    case (1 b' m' pid' tok s st1 fx1 p fx2)
    from respond_result [OF 1(9)] that 1(11,13)
    have "InsertMemory (new_memory e tok p pid' (sanitizeInput m' 5000) (trim t)) \<in> set fx2" by auto
    with 1(10) show ?thesis by auto
  qed
qed

lemma handler_turn_existing_session:
  assumes h: "handler e st rq = (r, st', fx)" and ins: "InsertMemory row \<in> set fx"
    and ok: "memory_insert_ok e" "session_update_ok e"
    and rd: "session_select_ok e"
    and x: "select_session st (m_session_token row) = Some x"
    and safe: "- (2 ^ 53) \<le> total_conversations x" "total_conversations x < 2 ^ 53"
  shows "conversation_memory st' = conversation_memory st @ [row] \<and>
         (\<exists>x'. select_session st' (m_session_token row) = Some x' \<and>
               total_conversations x' = total_conversations x + 1)"
  using h ins
proof (cases rule: handler_inserted)
  case (1 b m pid tok s st1 fx1 p t)
  have tok: "m_session_token row = tok" using 1(10) by (simp add: new_memory_def)
  from x tok have "select_session st tok = Some x" by simp
  then have s: "s = Some x" "st1 = st"
    using 1(7) by (simp_all add: get_or_create_session_def read_session_ok [OF rd])
  then have st': "st' = fst (persist_turn e st (select_session st tok) tok row)"
    using 1(12) \<open>select_session st tok = Some x\<close> by simp
  from persist_turn_sessions(3) [OF st', of x] persist_turn_sessions(5) [OF st']
    \<open>select_session st tok = Some x\<close> ok tok js_add_one_exact [OF safe]
  show ?thesis by simp
qed

text \<open>
  Claim C2, amended. With pairwise distinct session tokens, over any sequence of requests
  whose reads of the session table succeed the \<open>total_conversations\<close> of a session never
  decreases; a session the resolver creates starts with \<open>total_conversations = 1\<close>; and a
  completed turn on a session that existed when the request arrived, with the session
  read and both writes succeeding and the count within the range where a JavaScript
  number adds exactly (below \<open>2^53\<close> in absolute value), adds exactly one memory row,
  for that session, and raises the session's \<open>total_conversations\<close> by exactly one.
\<close>

theorem total_conversations_monotone:
  assumes "distinct (tokens st)" and "\<forall>a\<in>set reqs. session_select_ok (fst a)"
  shows "(\<forall>t x. select_session st t = Some x \<longrightarrow>
            (\<exists>x'. select_session (run st reqs) t = Some x' \<and>
                  total_conversations x \<le> total_conversations x'))
     \<and> (\<forall>e tok s st1 fx.
            select_session st tok = None \<and> get_or_create_session e st tok = (Some s, st1, fx) \<longrightarrow>
            total_conversations s = 1 \<and> select_session st1 tok = Some s)
     \<and> (\<forall>e rq r st' fx row x.
            handler e st rq = (r, st', fx) \<and> InsertMemory row \<in> set fx \<and>
            session_select_ok e \<and> memory_insert_ok e \<and> session_update_ok e \<and>
            select_session st (m_session_token row) = Some x \<and>
            - (2 ^ 53) \<le> total_conversations x \<and> total_conversations x < 2 ^ 53 \<longrightarrow>
            conversation_memory st' = conversation_memory st @ [row] \<and>
            (\<exists>x'. select_session st' (m_session_token row) = Some x' \<and>
                  total_conversations x' = total_conversations x + 1))"
proof (intro conjI allI impI)
  fix t x
  assume "select_session st t = Some x"
  from run_session_monotone [OF assms(1) this assms(2)]
  show "\<exists>x'. select_session (run st reqs) t = Some x' \<and>
             total_conversations x \<le> total_conversations x'" by simp
next
  fix e tok s st1 fx
  assume a: "select_session st tok = None \<and> get_or_create_session e st tok = (Some s, st1, fx)"
  from get_or_create_session_new [OF assms(1) conjunct1 [OF a] conjunct2 [OF a]]
  show "total_conversations s = 1" "select_session st1 tok = Some s" by simp_all
next
  fix e rq r st' fx row x
  assume a: "handler e st rq = (r, st', fx) \<and> InsertMemory row \<in> set fx \<and>
            session_select_ok e \<and> memory_insert_ok e \<and> session_update_ok e \<and>
            select_session st (m_session_token row) = Some x \<and>
            - (2 ^ 53) \<le> total_conversations x \<and> total_conversations x < 2 ^ 53"
  then have "conversation_memory st' = conversation_memory st @ [row] \<and>
         (\<exists>x'. select_session st' (m_session_token row) = Some x' \<and>
               total_conversations x' = total_conversations x + 1)"
    by (intro handler_turn_existing_session [of e st rq r st' fx row x]) simp_all
  then show "conversation_memory st' = conversation_memory st @ [row]"
    and "\<exists>x'. select_session st' (m_session_token row) = Some x' \<and>
               total_conversations x' = total_conversations x + 1" by simp_all
qed

lemma js_join_prefix: "xs \<noteq> [] \<Longrightarrow> prefix (hd xs) (js_join sep xs)"
  by (cases xs) (simp_all add: js_join_Cons)

lemma js_join_suffix: "xs \<noteq> [] \<Longrightarrow> suffix (last xs) (js_join sep xs)"
proof (induction xs)
  case Nil
  then show ?case by simp
next
  case (Cons x xs)
  show ?case
  proof (cases "xs = []")
    case True
    then show ?thesis by simp
  next
    case False
    with Cons.IH have "suffix (last xs) (js_join sep xs)" by simp
    then have "suffix (last xs) (x @ sep @ js_join sep xs)"
      by (simp add: suffix_append)
    with False show ?thesis by (simp add: js_join_Cons)
  qed
qed

lemma block_present:
  assumes "ctx \<noteq> []"
  shows "generation_prompt (buildSystemPrompt pd ctx) msg =
           (persona_framing (persona_name pd) (persona_voice pd) (persona_traits pd) @ ''\<newline>\<newline>'')
           @ (''Previous conversation:\<newline>'' @ ctx @ ''\<newline>\<newline>'')
           @ (''\<newline>\<newline>Respond authentically as this AI artwork personality. Keep responses conversational and engaging, typically 1-3 sentences.''
              @ ''\<newline>\<newline>User: '' @ msg @ ''\<newline>\<newline>AI:'')"
  using assms by (simp add: generation_prompt_def buildSystemPrompt_def persona_framing_def)

lemma block_absent:
  "generation_prompt (buildSystemPrompt pd []) msg =
           (persona_framing (persona_name pd) (persona_voice pd) (persona_traits pd) @ ''\<newline>\<newline>'')
           @ (''\<newline>\<newline>Respond authentically as this AI artwork personality. Keep responses conversational and engaging, typically 1-3 sentences.''
              @ ''\<newline>\<newline>User: '' @ msg @ ''\<newline>\<newline>AI:'')"
  by (simp add: generation_prompt_def buildSystemPrompt_def persona_framing_def)

text \<open>
  Claim C8. With an empty memory window (no rows, or no answer from the store) the
  prompt is the persona framing followed at once by the closing instructions: the
  \<open>Previous conversation:\<close> block is not there, and the phrase occurs nowhere in the
  prompt unless the persona or the message themselves hold it. With a window that is
  not empty the block stands between the framing and the instructions. In both cases
  the prompt ends with the new message under \<open>User:\<close> and then the cue \<open>AI:\<close>.
\<close>

theorem previous_conversation_block:
  "((w = None \<or> w = Some []) \<longrightarrow>
      generation_prompt (buildSystemPrompt pd (conversationContext w)) msg =
        (persona_framing (persona_name pd) (persona_voice pd) (persona_traits pd) @ ''\<newline>\<newline>'')
        @ (''\<newline>\<newline>Respond authentically as this AI artwork personality. Keep responses conversational and engaging, typically 1-3 sentences.''
           @ ''\<newline>\<newline>User: '' @ msg @ ''\<newline>\<newline>AI:'')
      \<and> (\<not> sublist ''Previous conversation:'' (persona_name pd) \<and>
           \<not> sublist ''Previous conversation:'' (persona_voice pd) \<and>
           \<not> sublist ''Previous conversation:'' (persona_traits pd) \<and>
           \<not> sublist ''Previous conversation:'' msg \<longrightarrow>
           \<not> sublist ''Previous conversation:''
               (generation_prompt (buildSystemPrompt pd (conversationContext w)) msg)))
   \<and> (\<forall>ms. w = Some ms \<and> ms \<noteq> [] \<longrightarrow>
        generation_prompt (buildSystemPrompt pd (conversationContext w)) msg =
          (persona_framing (persona_name pd) (persona_voice pd) (persona_traits pd) @ ''\<newline>\<newline>'')
          @ (''Previous conversation:\<newline>'' @ js_join ''\<newline>\<newline>'' (map render_memory ms) @ ''\<newline>\<newline>'')
          @ (''\<newline>\<newline>Respond authentically as this AI artwork personality. Keep responses conversational and engaging, typically 1-3 sentences.''
             @ ''\<newline>\<newline>User: '' @ msg @ ''\<newline>\<newline>AI:'')
        \<and> sublist ''Previous conversation:''
             (generation_prompt (buildSystemPrompt pd (conversationContext w)) msg))
   \<and> suffix (''\<newline>\<newline>User: '' @ msg @ ''\<newline>\<newline>AI:'')
        (generation_prompt (buildSystemPrompt pd (conversationContext w)) msg)"
proof (intro conjI allI impI)
  assume e: "w = None \<or> w = Some []"
  then have c: "conversationContext w = []" by (simp add: conversationContext_empty_iff)
  show "generation_prompt (buildSystemPrompt pd (conversationContext w)) msg =
        (persona_framing (persona_name pd) (persona_voice pd) (persona_traits pd) @ ''\<newline>\<newline>'')
        @ (''\<newline>\<newline>Respond authentically as this AI artwork personality. Keep responses conversational and engaging, typically 1-3 sentences.''
           @ ''\<newline>\<newline>User: '' @ msg @ ''\<newline>\<newline>AI:'')"
    unfolding c by (rule block_absent)
  assume "\<not> sublist ''Previous conversation:'' (persona_name pd) \<and>
           \<not> sublist ''Previous conversation:'' (persona_voice pd) \<and>
           \<not> sublist ''Previous conversation:'' (persona_traits pd) \<and>
           \<not> sublist ''Previous conversation:'' msg"
  then have na: "\<not> sublist ''Previous conversation:'' (persona_name pd)"
    "\<not> sublist ''Previous conversation:'' (persona_voice pd)"
    "\<not> sublist ''Previous conversation:'' (persona_traits pd)"
    "\<not> sublist ''Previous conversation:'' msg" by blast+
  show "\<not> sublist ''Previous conversation:''
               (generation_prompt (buildSystemPrompt pd (conversationContext w)) msg)"
    unfolding c using na by (rule phrase_absent)
next
  fix ms
  assume a: "w = Some ms \<and> ms \<noteq> []"
  then have ne: "conversationContext w \<noteq> []" by (simp add: conversationContext_empty_iff)
  have ctx: "conversationContext w = js_join ''\<newline>\<newline>'' (map render_memory ms)"
    using a by (simp add: conversationContext_def)
  show eq: "generation_prompt (buildSystemPrompt pd (conversationContext w)) msg =
          (persona_framing (persona_name pd) (persona_voice pd) (persona_traits pd) @ ''\<newline>\<newline>'')
          @ (''Previous conversation:\<newline>'' @ js_join ''\<newline>\<newline>'' (map render_memory ms) @ ''\<newline>\<newline>'')
          @ (''\<newline>\<newline>Respond authentically as this AI artwork personality. Keep responses conversational and engaging, typically 1-3 sentences.''
             @ ''\<newline>\<newline>User: '' @ msg @ ''\<newline>\<newline>AI:'')"
    using block_present [OF ne, of pd msg] unfolding ctx .
  have split: "generation_prompt (buildSystemPrompt pd (conversationContext w)) msg =
          (persona_framing (persona_name pd) (persona_voice pd) (persona_traits pd) @ ''\<newline>\<newline>'')
          @ ''Previous conversation:''
          @ (''\<newline>'' @ conversationContext w @ ''\<newline>\<newline>''
             @ ''\<newline>\<newline>Respond authentically as this AI artwork personality. Keep responses conversational and engaging, typically 1-3 sentences.''
             @ ''\<newline>\<newline>User: '' @ msg @ ''\<newline>\<newline>AI:'')"
    using ne by (simp add: generation_prompt_def buildSystemPrompt_def persona_framing_def)
  show "sublist ''Previous conversation:''
             (generation_prompt (buildSystemPrompt pd (conversationContext w)) msg)"
    unfolding split by (rule sublist_appendI)
next
  show "suffix (''\<newline>\<newline>User: '' @ msg @ ''\<newline>\<newline>AI:'')
        (generation_prompt (buildSystemPrompt pd (conversationContext w)) msg)"
    by (rule generation_prompt_suffix)
qed

text \<open>
  Claim C1, amended. When the store answers the memory query, the prompt sent to the
  generation service is built from the window the store returns, which is ordered by
  \<open>created_at\<close> descending, and the \<open>User:\<close> / \<open>AI:\<close> pairs stand in the prompt in that same
  order, newest entry first: for a window that is not empty the \<open>Previous conversation:\<close>
  block holds the pairs joined in window order, beginning with the pair of the first
  (newest) entry and ending with the pair of the last (oldest) one.
\<close>

theorem prompt_renders_window_newest_first:
  assumes "handler e st rq = (r, st', fx)" and "Generate prompt \<in> set fx"
    and "memory_select_ok e"
  shows "\<exists>b m pid p w.
           json rq = Some b \<and> message b = Some m \<and> personality_id b = Some pid
         \<and> select_personality st pid = Some p
         \<and> w = select_memories st (or_else (session_token b) (''session_'' @ fresh_suffix e)) pid
         \<and> sorted_wrt (\<lambda>a b. created_at b \<le> created_at a) w
         \<and> prompt = generation_prompt
                      (buildSystemPrompt (personality_data p) (js_join ''\<newline>\<newline>'' (map render_memory w)))
                      (sanitizeInput m 5000)
         \<and> (w \<noteq> [] \<longrightarrow>
              sublist (''Previous conversation:\<newline>'' @ js_join ''\<newline>\<newline>'' (map render_memory w) @ ''\<newline>\<newline>'') prompt
            \<and> prefix (''User: '' @ user_message (hd w) @ ''\<newline>AI: '' @ ai_response (hd w))
                 (js_join ''\<newline>\<newline>'' (map render_memory w))
            \<and> suffix (''User: '' @ user_message (last w) @ ''\<newline>AI: '' @ ai_response (last w))
                 (js_join ''\<newline>\<newline>'' (map render_memory w)))"
  using assms(1,2)
proof (cases rule: handler_generated)
  case (1 b m pid tok s st1 fx1 p fx2)
  define w where "w = select_memories st tok pid"
  let ?ctx = "js_join ''\<newline>\<newline>'' (map render_memory w)"
  have sel: "select_memories st1 tok pid = w"
    using select_memories_cong [OF 1(12)] by (simp add: w_def)
  have p: "prompt = generation_prompt (buildSystemPrompt (personality_data p) ?ctx) (sanitizeInput m 5000)"
    using 1(11) assms(3) sel by (simp add: turn_prompt_def conversationContext_def)
  have sorted: "sorted_wrt (\<lambda>a b. created_at b \<le> created_at a) w"
    unfolding w_def by (rule select_memories_sorted)
  have ne: "sublist (''Previous conversation:\<newline>'' @ ?ctx @ ''\<newline>\<newline>'') prompt
            \<and> prefix (''User: '' @ user_message (hd w) @ ''\<newline>AI: '' @ ai_response (hd w)) ?ctx
            \<and> suffix (''User: '' @ user_message (last w) @ ''\<newline>AI: '' @ ai_response (last w)) ?ctx"
    if "w \<noteq> []"
  proof (intro conjI)
    from that have "conversationContext (Some w) \<noteq> []" by (simp add: conversationContext_empty_iff)
    then have c: "?ctx \<noteq> []" by (simp add: conversationContext_def)
    show "sublist (''Previous conversation:\<newline>'' @ ?ctx @ ''\<newline>\<newline>'') prompt"
      unfolding p block_present [OF c] by (rule sublist_appendI)
    have "prefix (hd (map render_memory w)) ?ctx" using that by (intro js_join_prefix) simp
    then show "prefix (''User: '' @ user_message (hd w) @ ''\<newline>AI: '' @ ai_response (hd w)) ?ctx"
      using that by (simp add: hd_map render_memory_def)
    have "suffix (last (map render_memory w)) ?ctx" using that by (intro js_join_suffix) simp
    then show "suffix (''User: '' @ user_message (last w) @ ''\<newline>AI: '' @ ai_response (last w)) ?ctx"
      using that by (simp add: last_map render_memory_def)
  qed
  have sp: "select_personality st pid = Some p"
    using 1(8) select_personality_cong [OF get_or_create_session_memory [OF 1(7), THEN conjunct2]]
    by simp
  have w': "w = select_memories st (or_else (session_token b) (''session_'' @ fresh_suffix e)) pid"
    using w_def 1(6) by simp
  show ?thesis
    by (rule exI [of _ b], rule exI [of _ m], rule exI [of _ pid], rule exI [of _ p],
        rule exI [of _ w])
       (use 1(1,2,4) sp w' sorted p ne in blast)
qed

section \<open>The claims at concrete inputs\<close>

text \<open>The amended claim C1 at a store with two earlier turns.\<close>

theorem prompt_renders_window_newest_first_witness:
  "memory_select_ok demo_env
   \<and> Generate ''You are AI Artwork, embodying a contemplative consciousness with thoughtful, creative characteristics.\<newline>\<newline>Previous conversation:\<newline>User: second\<newline>AI: two\<newline>\<newline>User: first\<newline>AI: one\<newline>\<newline>\<newline>\<newline>Respond authentically as this AI artwork personality. Keep responses conversational and engaging, typically 1-3 sentences.\<newline>\<newline>User: third\<newline>\<newline>AI:''
        \<in> set (snd (snd (handler demo_env demo_store (demo_request ''POST'' (Some ''third'') (Some ''s1'')))))
   \<and> map created_at (select_memories demo_store ''s1'' ''P1'') = [2, 1]
   \<and> prefix ''User: second\<newline>AI: two''
         (js_join ''\<newline>\<newline>'' (map render_memory (select_memories demo_store ''s1'' ''P1'')))
   \<and> suffix ''User: first\<newline>AI: one''
         (js_join ''\<newline>\<newline>'' (map render_memory (select_memories demo_store ''s1'' ''P1'')))"
proof -
  let ?R = "demo_request ''POST'' (Some ''third'') (Some ''s1'')"
  let ?P = "''You are AI Artwork, embodying a contemplative consciousness with thoughtful, creative characteristics.\<newline>\<newline>Previous conversation:\<newline>User: second\<newline>AI: two\<newline>\<newline>User: first\<newline>AI: one\<newline>\<newline>\<newline>\<newline>Respond authentically as this AI artwork personality. Keep responses conversational and engaging, typically 1-3 sentences.\<newline>\<newline>User: third\<newline>\<newline>AI:''"
  have h: "handler demo_env demo_store ?R =
      (fst (handler demo_env demo_store ?R), fst (snd (handler demo_env demo_store ?R)),
       snd (snd (handler demo_env demo_store ?R)))" by simp
  have g: "Generate ?P \<in> set (snd (snd (handler demo_env demo_store ?R)))" by code_simp
  have ok: "memory_select_ok demo_env" by (simp add: demo_env_def)
  from prompt_renders_window_newest_first [OF h g ok]
  obtain b m pid p w where f: "json ?R = Some b" "personality_id b = Some pid"
    "w = select_memories demo_store (or_else (session_token b) (''session_'' @ fresh_suffix demo_env)) pid"
    "w \<noteq> [] \<longrightarrow>
       prefix (''User: '' @ user_message (hd w) @ ''\<newline>AI: '' @ ai_response (hd w))
         (js_join ''\<newline>\<newline>'' (map render_memory w))
     \<and> suffix (''User: '' @ user_message (last w) @ ''\<newline>AI: '' @ ai_response (last w))
         (js_join ''\<newline>\<newline>'' (map render_memory w))"
    by blast
  have b: "b = \<lparr>message = Some ''third'', personality_id = Some ''P1'', session_token = Some ''s1''\<rparr>"
    using f(1) by (simp add: demo_request_def)
  have pid: "pid = ''P1''" using f(2) b by simp
  have w: "w = select_memories demo_store ''s1'' ''P1''" using f(3) b pid by (simp add: or_else_def)
  have wv: "select_memories demo_store ''s1'' ''P1'' =
      [demo_memory ''s1'' ''second'' ''two'' 2, demo_memory ''s1'' ''first'' ''one'' 1]"
    by code_simp
  have c: "map created_at (select_memories demo_store ''s1'' ''P1'') = [2, 1]"
    unfolding wv by (simp add: demo_memory_def)
  from f(4) w wv have
    "prefix (''User: '' @ user_message (demo_memory ''s1'' ''second'' ''two'' 2) @ ''\<newline>AI: ''
               @ ai_response (demo_memory ''s1'' ''second'' ''two'' 2))
         (js_join ''\<newline>\<newline>'' (map render_memory (select_memories demo_store ''s1'' ''P1'')))"
    "suffix (''User: '' @ user_message (demo_memory ''s1'' ''first'' ''one'' 1) @ ''\<newline>AI: ''
               @ ai_response (demo_memory ''s1'' ''first'' ''one'' 1))
         (js_join ''\<newline>\<newline>'' (map render_memory (select_memories demo_store ''s1'' ''P1'')))"
    by simp_all
  then have "prefix ''User: second\<newline>AI: two''
         (js_join ''\<newline>\<newline>'' (map render_memory (select_memories demo_store ''s1'' ''P1'')))"
    "suffix ''User: first\<newline>AI: one''
         (js_join ''\<newline>\<newline>'' (map render_memory (select_memories demo_store ''s1'' ''P1'')))"
    by (simp_all add: demo_memory_def)
  with ok g c show ?thesis by (intro conjI)
qed

text \<open>
  Claim C1 as stated fails: with two earlier turns, stamped 1 and 2, the store returns the
  newer one first and the prompt holds \<open>second\<close> before \<open>first\<close>; the chronological
  rendering the claim describes is a different string.
\<close>

theorem chronological_order_counterexample:
  "map created_at (select_memories demo_store ''s1'' ''P1'') = [2, 1]
   \<and> conversationContext (Some (select_memories demo_store ''s1'' ''P1''))
       = ''User: second\<newline>AI: two\<newline>\<newline>User: first\<newline>AI: one''
   \<and> chronological_context (select_memories demo_store ''s1'' ''P1'')
       = ''User: first\<newline>AI: one\<newline>\<newline>User: second\<newline>AI: two''
   \<and> conversationContext (Some (select_memories demo_store ''s1'' ''P1''))
       \<noteq> chronological_context (select_memories demo_store ''s1'' ''P1'')
   \<and> Generate ''You are AI Artwork, embodying a contemplative consciousness with thoughtful, creative characteristics.\<newline>\<newline>Previous conversation:\<newline>User: second\<newline>AI: two\<newline>\<newline>User: first\<newline>AI: one\<newline>\<newline>\<newline>\<newline>Respond authentically as this AI artwork personality. Keep responses conversational and engaging, typically 1-3 sentences.\<newline>\<newline>User: third\<newline>\<newline>AI:''
        \<in> set (snd (snd (handler demo_env demo_store (demo_request ''POST'' (Some ''third'') (Some ''s1'')))))"
  by code_simp

text \<open>
  Claim C2 as stated fails. One completed turn on a token without a session leaves one
  memory row for the new session and \<open>total_conversations = 2\<close>. And when the read of the
  session table fails and the insert of a second row for the token is refused, a turn
  on a session that stands at 3 is answered with status 200 and leaves it at 1.
\<close>

theorem total_conversations_counterexample:
  "map s_session_token
     (user_sessions (run fresh_store
        [(demo_env, demo_request ''POST'' (Some ''Hello, how are you?'') None)]))
     = [''session_3_k2j9x0q1z'']
   \<and> map total_conversations
     (user_sessions (run fresh_store
        [(demo_env, demo_request ''POST'' (Some ''Hello, how are you?'') None)]))
     = [2]
   \<and> length (filter (\<lambda>m. m_session_token m = ''session_3_k2j9x0q1z'')
       (conversation_memory (run fresh_store
          [(demo_env, demo_request ''POST'' (Some ''Hello, how are you?'') None)])))
     = 1
   \<and> map total_conversations (user_sessions demo_store) = [3]
   \<and> status (fst (handler (demo_env\<lparr>session_select_ok := False, session_insert_ok := False\<rparr>)
        demo_store (demo_request ''POST'' (Some ''third'') (Some ''s1'')))) = 200
   \<and> map total_conversations
       (user_sessions (run demo_store
          [(demo_env\<lparr>session_select_ok := False, session_insert_ok := False\<rparr>,
            demo_request ''POST'' (Some ''third'') (Some ''s1''))]))
     = [1]"
  by code_simp

text \<open>The amended claim C2 at a store with one session, and at a store with none.\<close>

theorem total_conversations_monotone_witness:
  "distinct (tokens demo_store) \<and> distinct (tokens fresh_store)
   \<and> session_select_ok demo_env
   \<and> select_session demo_store ''s1'' = Some demo_session
   \<and> (\<exists>x'. select_session
              (run demo_store [(demo_env, demo_request ''POST'' (Some ''third'') (Some ''s1''))]) ''s1''
            = Some x'
          \<and> total_conversations demo_session \<le> total_conversations x')
   \<and> select_session fresh_store ''s9'' = None
   \<and> total_conversations
         \<lparr>s_session_token = ''s9'', first_visit = 3, last_active = 3, total_conversations = 1\<rparr> = 1
   \<and> select_session (insert_session fresh_store
           \<lparr>s_session_token = ''s9'', first_visit = 3, last_active = 3, total_conversations = 1\<rparr>) ''s9''
       = Some \<lparr>s_session_token = ''s9'', first_visit = 3, last_active = 3, total_conversations = 1\<rparr>
   \<and> InsertMemory (demo_memory ''s1'' ''third'' ''I am doing well, thank you!'' 3)
       \<in> set (snd (snd (handler demo_env demo_store (demo_request ''POST'' (Some ''third'') (Some ''s1'')))))
   \<and> conversation_memory
         (fst (snd (handler demo_env demo_store (demo_request ''POST'' (Some ''third'') (Some ''s1'')))))
       = conversation_memory demo_store @ [demo_memory ''s1'' ''third'' ''I am doing well, thank you!'' 3]
   \<and> (\<exists>x'. select_session
              (fst (snd (handler demo_env demo_store (demo_request ''POST'' (Some ''third'') (Some ''s1'')))))
              ''s1'' = Some x'
          \<and> total_conversations x' = total_conversations demo_session + 1)"
proof -
  let ?R = "demo_request ''POST'' (Some ''third'') (Some ''s1'')"
  let ?row = "demo_memory ''s1'' ''third'' ''I am doing well, thank you!'' 3"
  let ?new = "\<lparr>s_session_token = ''s9'', first_visit = 3, last_active = 3, total_conversations = 1\<rparr>"
  have d: "distinct (tokens demo_store)" by code_simp
  have d': "distinct (tokens fresh_store)" by code_simp
  have rd: "session_select_ok demo_env" by (simp add: demo_env_def)
  have rds: "\<forall>a\<in>set [(demo_env, ?R)]. session_select_ok (fst a)" using rd by simp
  have rds': "\<forall>a\<in>set ([] :: (env \<times> request) list). session_select_ok (fst a)" by simp
  have safe: "- (2 ^ 53) \<le> total_conversations demo_session"
    "total_conversations demo_session < 2 ^ 53" by (simp_all add: demo_session_def)
  note t = total_conversations_monotone [OF d rds]
  note t' = total_conversations_monotone [OF d' rds']
  have sel: "select_session demo_store ''s1'' = Some demo_session" by code_simp
  have none: "select_session fresh_store ''s9'' = None" by code_simp
  have create: "get_or_create_session demo_env fresh_store ''s9'' =
      (Some ?new, insert_session fresh_store ?new, [SelectSession ''s9'', InsertSession ?new])"
    by code_simp
  have h: "handler demo_env demo_store ?R =
      (fst (handler demo_env demo_store ?R), fst (snd (handler demo_env demo_store ?R)),
       snd (snd (handler demo_env demo_store ?R)))" by simp
  have ins: "InsertMemory ?row \<in> set (snd (snd (handler demo_env demo_store ?R)))" by code_simp
  have ok: "memory_insert_ok demo_env" "session_update_ok demo_env" by (simp_all add: demo_env_def)
  have tok: "m_session_token ?row = ''s1''" by (simp add: demo_memory_def)
  have sel': "select_session demo_store (m_session_token ?row) = Some demo_session"
    unfolding tok by (rule sel)
  note mono = t [THEN conjunct1, rule_format, OF sel]
  note new = t' [THEN conjunct2, THEN conjunct1, rule_format, OF conjI [OF none create]]
  note turn = t [THEN conjunct2, THEN conjunct2, rule_format,
      OF conjI [OF h conjI [OF ins conjI [OF rd conjI [OF ok(1) conjI [OF ok(2)
        conjI [OF sel' conjI [OF safe(1) safe(2)]]]]]]]]
  have new1: "total_conversations ?new = 1"
    and new2: "select_session (insert_session fresh_store ?new) ''s9'' = Some ?new"
    using new by (rule conjunct1, rule conjunct2)
  have turn1: "conversation_memory (fst (snd (handler demo_env demo_store ?R)))
                = conversation_memory demo_store @ [?row]"
    using turn by (rule conjunct1)
  have turn2: "\<exists>x'. select_session (fst (snd (handler demo_env demo_store ?R))) ''s1'' = Some x'
                 \<and> total_conversations x' = total_conversations demo_session + 1"
    using turn [THEN conjunct2] unfolding tok .
  from d d' rd sel mono none new1 new2 ins turn1 turn2 show ?thesis by (intro conjI)
qed

text \<open>Claim C3 at a store with one session, when the insert of the memory row fails.\<close>

theorem reply_survives_failed_memory_write_witness:
  "Generate ''You are AI Artwork, embodying a contemplative consciousness with thoughtful, creative characteristics.\<newline>\<newline>Previous conversation:\<newline>User: second\<newline>AI: two\<newline>\<newline>User: first\<newline>AI: one\<newline>\<newline>\<newline>\<newline>Respond authentically as this AI artwork personality. Keep responses conversational and engaging, typically 1-3 sentences.\<newline>\<newline>User: third\<newline>\<newline>AI:''
        \<in> set (snd (snd (handler (demo_env\<lparr>memory_insert_ok := False\<rparr>) demo_store
                  (demo_request ''POST'' (Some ''third'') (Some ''s1'')))))
   \<and> trim '' I am doing well, thank you! '' = ''I am doing well, thank you!''
   \<and> \<not> memory_insert_ok (demo_env\<lparr>memory_insert_ok := False\<rparr>)
   \<and> status (fst (handler (demo_env\<lparr>memory_insert_ok := False\<rparr>) demo_store
                  (demo_request ''POST'' (Some ''third'') (Some ''s1'')))) = 200
   \<and> reply_of (fst (handler (demo_env\<lparr>memory_insert_ok := False\<rparr>) demo_store
                  (demo_request ''POST'' (Some ''third'') (Some ''s1''))))
       = Some ''I am doing well, thank you!''
   \<and> conversation_memory (fst (snd (handler (demo_env\<lparr>memory_insert_ok := False\<rparr>) demo_store
                  (demo_request ''POST'' (Some ''third'') (Some ''s1'')))))
       = conversation_memory demo_store"
proof -
  let ?E = "demo_env\<lparr>memory_insert_ok := False\<rparr>"
  let ?R = "demo_request ''POST'' (Some ''third'') (Some ''s1'')"
  let ?P = "''You are AI Artwork, embodying a contemplative consciousness with thoughtful, creative characteristics.\<newline>\<newline>Previous conversation:\<newline>User: second\<newline>AI: two\<newline>\<newline>User: first\<newline>AI: one\<newline>\<newline>\<newline>\<newline>Respond authentically as this AI artwork personality. Keep responses conversational and engaging, typically 1-3 sentences.\<newline>\<newline>User: third\<newline>\<newline>AI:''"
  have h: "handler ?E demo_store ?R =
      (fst (handler ?E demo_store ?R), fst (snd (handler ?E demo_store ?R)),
       snd (snd (handler ?E demo_store ?R)))" by simp
  have g: "Generate ?P \<in> set (snd (snd (handler ?E demo_store ?R)))" by code_simp
  have a: "gemini ?E ?P = OkText (Some '' I am doing well, thank you! '')"
    by (simp add: demo_env_def)
  have tr: "trim '' I am doing well, thank you! '' = ''I am doing well, thank you!''" by code_simp
  then have ne: "trim '' I am doing well, thank you! '' \<noteq> []" by simp
  have no: "\<not> memory_insert_ok ?E" by simp
  note t = reply_survives_failed_memory_write [OF h g a ne no]
  have "status (fst (handler ?E demo_store ?R)) = 200" using t by (rule conjunct1)
  moreover have "reply_of (fst (handler ?E demo_store ?R)) = Some ''I am doing well, thank you!''"
    using t [THEN conjunct2, THEN conjunct1] unfolding tr .
  moreover have "conversation_memory (fst (snd (handler ?E demo_store ?R))) = conversation_memory demo_store"
    using t [THEN conjunct2, THEN conjunct2, THEN conjunct2, THEN conjunct1] .
  ultimately show ?thesis using g tr no by (intro conjI)
qed

text \<open>Claim C4 at a store with eleven turns of one session and one turn of another.\<close>

theorem select_memories_window_witness:
  "demo_memory ''s1'' ''question'' ''answer'' 2 \<in> set (select_memories crowded_store ''s1'' ''P1'')
   \<and> demo_memory ''s1'' ''question'' ''answer'' 2 \<in> set (conversation_memory crowded_store)
   \<and> m_session_token (demo_memory ''s1'' ''question'' ''answer'' 2) = ''s1''
   \<and> m_personality_id (demo_memory ''s1'' ''question'' ''answer'' 2) = ''P1''
   \<and> length (select_memories crowded_store ''s1'' ''P1'') = 10
   \<and> map created_at (select_memories crowded_store ''s1'' ''P1'') = [11, 10, 9, 8, 7, 6, 5, 4, 3, 2]
   \<and> demo_memory ''s1'' ''question'' ''answer'' 1 \<in> set (conversation_memory crowded_store)
   \<and> demo_memory ''s1'' ''question'' ''answer'' 1 \<notin> set (select_memories crowded_store ''s1'' ''P1'')
   \<and> created_at (demo_memory ''s1'' ''question'' ''answer'' 1)
       \<le> created_at (demo_memory ''s1'' ''question'' ''answer'' 2)
   \<and> select_memories crowded_store ''s3'' ''P1'' = []"
proof -
  let ?m1 = "demo_memory ''s1'' ''question'' ''answer'' 1"
  let ?m2 = "demo_memory ''s1'' ''question'' ''answer'' 2"
  note t = select_memories_window [of crowded_store "''s1''" "''P1''"]
  note t3 = select_memories_window [of crowded_store "''s3''" "''P1''"]
  have in2: "?m2 \<in> set (select_memories crowded_store ''s1'' ''P1'')" by code_simp
  have in1: "?m1 \<in> set (conversation_memory crowded_store)" by code_simp
  have out1: "?m1 \<notin> set (select_memories crowded_store ''s1'' ''P1'')" by code_simp
  have k1: "m_session_token ?m1 = ''s1'' \<and> m_personality_id ?m1 = ''P1''"
    by (simp add: demo_memory_def)
  have cnt: "length (filter (\<lambda>m. m_session_token m = ''s1'' \<and> m_personality_id m = ''P1'')
                (conversation_memory crowded_store)) = 11" by code_simp
  have none: "\<forall>m\<in>set (conversation_memory crowded_store).
                \<not> (m_session_token m = ''s3'' \<and> m_personality_id m = ''P1'')"
    by (simp add: crowded_store_def demo_memory_def)
  have order: "map created_at (select_memories crowded_store ''s1'' ''P1'') = [11, 10, 9, 8, 7, 6, 5, 4, 3, 2]"
    by code_simp
  from t [THEN conjunct1, rule_format, OF in2]
  have a: "?m2 \<in> set (conversation_memory crowded_store)" "m_session_token ?m2 = ''s1''"
    "m_personality_id ?m2 = ''P1''" by simp_all
  have b: "length (select_memories crowded_store ''s1'' ''P1'') = 10"
    using t [THEN conjunct2, THEN conjunct1] unfolding cnt by simp
  have c: "created_at ?m1 \<le> created_at ?m2"
    using t [THEN conjunct2, THEN conjunct2, THEN conjunct2, THEN conjunct1, rule_format,
        OF in1 in2] k1 out1 by simp
  have d: "select_memories crowded_store ''s3'' ''P1'' = []"
    using t3 [THEN conjunct2, THEN conjunct2, THEN conjunct2, THEN conjunct2, THEN mp, OF none] .
  from in2 a b order in1 out1 c d show ?thesis by (intro conjI)
qed

text \<open>Claim C5 at a POST request whose message is the empty string.\<close>

theorem validation_before_side_effects_witness:
  "json (demo_request ''POST'' (Some []) None)
     = Some \<lparr>message = Some [], personality_id = Some ''P1'', session_token = None\<rparr>
   \<and> http_method (demo_request ''POST'' (Some []) None) = ''POST''
   \<and> snd (snd (handler demo_env demo_store (demo_request ''POST'' (Some []) None))) = []
   \<and> fst (snd (handler demo_env demo_store (demo_request ''POST'' (Some []) None))) = demo_store
   \<and> status (fst (handler demo_env demo_store (demo_request ''POST'' (Some []) None))) = 400
   \<and> error_code (fst (handler demo_env demo_store (demo_request ''POST'' (Some []) None)))
       = Some ''INVALID_REQUEST''"
proof -
  let ?R = "demo_request ''POST'' (Some []) None"
  let ?B = "\<lparr>message = Some [], personality_id = Some ''P1'', session_token = None\<rparr>"
  have j: "json ?R = Some ?B" by (simp add: demo_request_def)
  have p: "http_method ?R = ''POST''" by (simp add: demo_request_def)
  have e: "message ?B = None \<or> message ?B = Some [] \<or> personality_id ?B = None
             \<or> personality_id ?B = Some []" by simp
  note t = validation_before_side_effects [OF j e, of demo_env demo_store]
  note t3 = t [THEN conjunct2, THEN conjunct2, THEN mp, OF p]
  from j p t [THEN conjunct1] t [THEN conjunct2, THEN conjunct1] t3 [THEN conjunct1]
    t3 [THEN conjunct2]
  show ?thesis by (intro conjI)
qed

text \<open>Claim C7 at a profile that is missing altogether and at a complete one.\<close>

theorem buildSystemPrompt_fallbacks_witness:
  "core_field None name = None \<and> core_field None artistic_voice = None
   \<and> core_field None personality_traits = None
   \<and> persona_name None = ''AI Artwork'' \<and> persona_voice None = ''contemplative''
   \<and> persona_traits None = ''thoughtful, creative''
   \<and> (\<exists>rest. buildSystemPrompt None [] =
         ''You are AI Artwork, embodying a contemplative consciousness with thoughtful, creative characteristics.'' @ rest)
   \<and> core_field demo_profile name = Some ''Iris''
   \<and> persona_name demo_profile = ''Iris'' \<and> persona_voice demo_profile = ''bold''
   \<and> persona_traits demo_profile = js_join '', '' [''curious'', ''warm'']"
proof -
  note t = buildSystemPrompt_fallbacks [of None "[]"]
  note u = buildSystemPrompt_fallbacks [of demo_profile "[]"]
  have n: "core_field None name = None" "core_field None artistic_voice = None"
    "core_field None personality_traits = None" by (simp_all add: core_field_def)
  have d: "core_field demo_profile name = Some ''Iris''"
    "core_field demo_profile artistic_voice = Some ''bold''"
    "core_field demo_profile personality_traits = Some [''curious'', ''warm'']"
    by (simp_all add: core_field_def demo_profile_def)
  have absent: "(None :: personality_data option) = None \<or>
      (\<exists>d. (None :: personality_data option) = Some d \<and> core_identity d = None)" by simp
  note t1 = t [THEN conjunct2, THEN conjunct1, THEN mp, OF n(1)]
  note t2 = t [THEN conjunct2, THEN conjunct2, THEN conjunct1, THEN mp, OF n(2)]
  note t3 = t [THEN conjunct2, THEN conjunct2, THEN conjunct2, THEN conjunct1, THEN mp, OF n(3)]
  note t7 = t [THEN conjunct2, THEN conjunct2, THEN conjunct2, THEN conjunct2, THEN conjunct2,
      THEN conjunct2, THEN conjunct2, THEN mp, OF absent]
  have u4: "persona_name demo_profile = ''Iris''"
    using u [THEN conjunct2, THEN conjunct2, THEN conjunct2, THEN conjunct2, THEN conjunct1,
      THEN spec, of "''Iris''"] d(1) by simp
  have u5: "persona_voice demo_profile = ''bold''"
    using u [THEN conjunct2, THEN conjunct2, THEN conjunct2, THEN conjunct2, THEN conjunct2,
      THEN conjunct1, THEN spec, of "''bold''"] d(2) by simp
  have u6: "persona_traits demo_profile = js_join '', '' [''curious'', ''warm'']"
    using u [THEN conjunct2, THEN conjunct2, THEN conjunct2, THEN conjunct2, THEN conjunct2,
      THEN conjunct2, THEN conjunct1, THEN spec, of "[''curious'', ''warm'']"] d(3) by simp
  from n t1 t2 t3 t7 d(1) u4 u5 u6 show ?thesis by (intro conjI)
qed

text \<open>Claim C9 at the store with one session, resolved twice.\<close>

theorem resolve_known_session_witness:
  "distinct (tokens demo_store) \<and> demo_session \<in> set (user_sessions demo_store)
   \<and> s_session_token demo_session = ''s1'' \<and> session_select_ok demo_env
   \<and> get_or_create_session demo_env demo_store ''s1''
       = (Some demo_session, demo_store, [SelectSession ''s1''])
   \<and> get_or_create_session demo_env
         (fst (snd (get_or_create_session demo_env demo_store ''s1''))) ''s1''
       = (Some demo_session, demo_store, [SelectSession ''s1''])
   \<and> length (filter (\<lambda>x. s_session_token x = ''s1'')
         (user_sessions (fst (snd (get_or_create_session demo_env demo_store ''s1''))))) = 1"
proof -
  have d: "distinct (tokens demo_store)" by code_simp
  have i: "demo_session \<in> set (user_sessions demo_store)" by (simp add: demo_store_def)
  have k: "s_session_token demo_session = ''s1''" by (simp add: demo_session_def)
  have rd: "session_select_ok demo_env" by (simp add: demo_env_def)
  note t = resolve_known_session [OF d i k rd]
  from d i k rd t [THEN conjunct1]
    t [THEN conjunct2, THEN conjunct1, THEN spec, of demo_env, THEN mp, OF rd]
    t [THEN conjunct2, THEN conjunct2] show ?thesis by (intro conjI)
qed

text \<open>Claim C8 at an empty window and at a window of one turn, for a missing profile.\<close>

theorem previous_conversation_block_witness:
  "\<not> sublist ''Previous conversation:'' (persona_name None)
   \<and> \<not> sublist ''Previous conversation:'' (persona_voice None)
   \<and> \<not> sublist ''Previous conversation:'' (persona_traits None)
   \<and> \<not> sublist ''Previous conversation:'' ''Hello''
   \<and> generation_prompt (buildSystemPrompt None (conversationContext (Some []))) ''Hello''
       = (persona_framing (persona_name None) (persona_voice None) (persona_traits None) @ ''\<newline>\<newline>'')
         @ (''\<newline>\<newline>Respond authentically as this AI artwork personality. Keep responses conversational and engaging, typically 1-3 sentences.''
            @ ''\<newline>\<newline>User: '' @ ''Hello'' @ ''\<newline>\<newline>AI:'')
   \<and> \<not> sublist ''Previous conversation:''
         (generation_prompt (buildSystemPrompt None (conversationContext (Some []))) ''Hello'')
   \<and> sublist ''Previous conversation:''
         (generation_prompt
            (buildSystemPrompt None (conversationContext (Some [demo_memory ''s1'' ''first'' ''one'' 1])))
            ''Hello'')
   \<and> suffix (''\<newline>\<newline>User: '' @ ''Hello'' @ ''\<newline>\<newline>AI:'')
         (generation_prompt
            (buildSystemPrompt None (conversationContext (Some [demo_memory ''s1'' ''first'' ''one'' 1])))
            ''Hello'')"
proof -
  let ?m = "demo_memory ''s1'' ''first'' ''one'' 1"
  note t = previous_conversation_block [of "Some []" None "''Hello''"]
  note u = previous_conversation_block [of "Some [?m]" None "''Hello''"]
  have e: "Some [] = None \<or> Some [] = Some ([] :: memory list)" by simp
  have n: "\<not> sublist ''Previous conversation:'' (persona_name None)"
    "\<not> sublist ''Previous conversation:'' (persona_voice None)"
    "\<not> sublist ''Previous conversation:'' (persona_traits None)"
    "\<not> sublist ''Previous conversation:'' ''Hello''" by code_simp+
  note t1 = t [THEN conjunct1, THEN mp, OF e]
  note t2 = t1 [THEN conjunct2, THEN mp, OF conjI [OF n(1) conjI [OF n(2) conjI [OF n(3) n(4)]]]]
  have ne: "Some [?m] = Some [?m] \<and> [?m] \<noteq> []" by simp
  note u2 = u [THEN conjunct2, THEN conjunct1, THEN spec, of "[?m]", THEN mp, OF ne]
  from n t1 [THEN conjunct1] t2 u2 [THEN conjunct2] u [THEN conjunct2, THEN conjunct2]
  show ?thesis by (intro conjI)
qed

text \<open>Claim C10 at a message of three blanks.\<close>

theorem whitespace_message_proceeds_as_empty_witness:
  "sanitizeInput ''   '' 5000 = []
   \<and> error_code (fst (handler demo_env demo_store (demo_request ''POST'' (Some ''   '') (Some ''s1''))))
       \<noteq> Some ''INVALID_REQUEST''
   \<and> Generate ''You are AI Artwork, embodying a contemplative consciousness with thoughtful, creative characteristics.\<newline>\<newline>Previous conversation:\<newline>User: second\<newline>AI: two\<newline>\<newline>User: first\<newline>AI: one\<newline>\<newline>\<newline>\<newline>Respond authentically as this AI artwork personality. Keep responses conversational and engaging, typically 1-3 sentences.\<newline>\<newline>User: \<newline>\<newline>AI:''
        \<in> set (snd (snd (handler demo_env demo_store (demo_request ''POST'' (Some ''   '') (Some ''s1'')))))
   \<and> suffix ''\<newline>\<newline>User: \<newline>\<newline>AI:''
        ''You are AI Artwork, embodying a contemplative consciousness with thoughtful, creative characteristics.\<newline>\<newline>Previous conversation:\<newline>User: second\<newline>AI: two\<newline>\<newline>User: first\<newline>AI: one\<newline>\<newline>\<newline>\<newline>Respond authentically as this AI artwork personality. Keep responses conversational and engaging, typically 1-3 sentences.\<newline>\<newline>User: \<newline>\<newline>AI:''
   \<and> InsertMemory (demo_memory ''s1'' [] ''I am doing well, thank you!'' 3)
        \<in> set (snd (snd (handler demo_env demo_store (demo_request ''POST'' (Some ''   '') (Some ''s1'')))))
   \<and> user_message (demo_memory ''s1'' [] ''I am doing well, thank you!'' 3) = []
   \<and> conversation_memory
         (fst (snd (handler demo_env demo_store (demo_request ''POST'' (Some ''   '') (Some ''s1'')))))
       = conversation_memory demo_store @ [demo_memory ''s1'' [] ''I am doing well, thank you!'' 3]
   \<and> status (fst (handler demo_env demo_store (demo_request ''POST'' (Some ''   '') (Some ''s1'')))) = 200"
proof -
  let ?R = "demo_request ''POST'' (Some ''   '') (Some ''s1'')"
  let ?B = "\<lparr>message = Some ''   '', personality_id = Some ''P1'', session_token = Some ''s1''\<rparr>"
  let ?P = "''You are AI Artwork, embodying a contemplative consciousness with thoughtful, creative characteristics.\<newline>\<newline>Previous conversation:\<newline>User: second\<newline>AI: two\<newline>\<newline>User: first\<newline>AI: one\<newline>\<newline>\<newline>\<newline>Respond authentically as this AI artwork personality. Keep responses conversational and engaging, typically 1-3 sentences.\<newline>\<newline>User: \<newline>\<newline>AI:''"
  let ?row = "demo_memory ''s1'' [] ''I am doing well, thank you!'' 3"
  have h: "handler demo_env demo_store ?R =
      (fst (handler demo_env demo_store ?R), fst (snd (handler demo_env demo_store ?R)),
       snd (snd (handler demo_env demo_store ?R)))" by simp
  have j: "json ?R = Some ?B" by (simp add: demo_request_def)
  have m: "message ?B = Some ''   ''" "''   '' \<noteq> []" by simp_all
  have sp: "\<forall>c\<in>set (take 5000 ''   ''). is_space c" by code_simp
  have p: "personality_id ?B = Some ''P1''" "''P1'' \<noteq> []" by simp_all
  note t = whitespace_message_proceeds_as_empty [OF h j m sp p]
  have g: "Generate ?P \<in> set (snd (snd (handler demo_env demo_store ?R)))" by code_simp
  have i: "InsertMemory ?row \<in> set (snd (snd (handler demo_env demo_store ?R)))" by code_simp
  have ok: "memory_insert_ok demo_env" by (simp add: demo_env_def)
  have a: "gemini demo_env ?P = OkText (Some '' I am doing well, thank you! '')"
    by (simp add: demo_env_def)
  have ne: "trim '' I am doing well, thank you! '' \<noteq> []" by code_simp
  note t3 = t [THEN conjunct2, THEN conjunct2, THEN conjunct1, THEN spec, of ?P, THEN mp, OF g]
  note t4 = t [THEN conjunct2, THEN conjunct2, THEN conjunct2, THEN conjunct1, THEN spec, of ?row,
      THEN mp, OF i]
  note t6 = t [THEN conjunct2, THEN conjunct2, THEN conjunct2, THEN conjunct2, THEN conjunct2,
      THEN spec, of ?P, THEN spec, of "'' I am doing well, thank you! ''", THEN mp,
      OF conjI [OF g conjI [OF a ne]]]
  from t [THEN conjunct1] t [THEN conjunct2, THEN conjunct1] g t3 i t4 [THEN conjunct1]
    t4 [THEN conjunct2, THEN mp, OF ok] t6 [THEN conjunct1]
  show ?thesis by (intro conjI)
qed

end
